theory Spec2Isabelle
  imports Complex_Main "HOL-Library.Log_Nat"
begin

section \<open>JavaScript values\<close>

text \<open>
  The scanner works on market objects decoded from JSON. A number is a double: a finite
  one is given by its exact value, a rational, and beside these there are the two
  infinities and NaN. The two zeros are not told apart: the program never divides by a
  price and prints no sign of zero.
\<close>

datatype jsnum = Fin rat | PInf | NInf | NaN

subsection \<open>Rounding to double precision\<close>

text \<open>
  The result of an arithmetic operation, and the value of a decimal literal, is the
  double nearest to the exact result, the one with the even significand in a tie. A
  double has a significand of 53 bits: between \<open>2^e\<close> and \<open>2^(e+1)\<close> the doubles are the
  multiples of \<open>2^(e-52)\<close>, for \<open>e\<close> from -1022 on; below \<open>2^(-1022)\<close> they are the
  multiples of \<open>2^(-1074)\<close> (the subnormal numbers, and zero). A result that rounds to
  \<open>2^1024\<close> or more is infinite.
\<close>

definition pow2 :: "int \<Rightarrow> rat" where
  "pow2 k = (if 0 \<le> k then 2 ^ nat k else 1 / 2 ^ nat (- k))"

definition ilog2 :: "rat \<Rightarrow> int" where
  \<comment> \<open>for \<open>a > 0\<close>, the exponent \<open>e\<close> with \<open>2^e <= a < 2^(e+1)\<close>; \<open>bitlen n\<close> is the number
      of binary digits of \<open>n\<close>\<close>
  "ilog2 a = (if 1 \<le> a then bitlen \<lfloor>a\<rfloor> - 1 else - bitlen (\<lceil>1 / a\<rceil> - 1))"

definition round_even :: "rat \<Rightarrow> int" where
  \<comment> \<open>the nearest integer, the even one in a tie\<close>
  "round_even q =
     (let f = \<lfloor>q\<rfloor>; r = q - of_int f
      in if r < 1 / 2 then f else if 1 / 2 < r then f + 1 else if even f then f else f + 1)"

definition ulp :: "rat \<Rightarrow> rat" where
  \<comment> \<open>the distance between the doubles around \<open>a > 0\<close>\<close>
  "ulp a = pow2 (max (ilog2 a) (- 1022) - 52)"

definition round_to :: "rat \<Rightarrow> rat \<Rightarrow> rat" where
  \<comment> \<open>the multiple of \<open>u\<close> nearest to \<open>a\<close>\<close>
  "round_to u a = of_int (round_even (a / u)) * u"

definition of_magnitude :: "bool \<Rightarrow> rat \<Rightarrow> jsnum" where
  \<comment> \<open>the number with the given sign and rounded magnitude\<close>
  "of_magnitude pos r =
     (if pow2 1024 \<le> r then (if pos then PInf else NInf) else Fin (if pos then r else - r))"

definition round_double :: "rat \<Rightarrow> jsnum" where
  "round_double x =
     (if x = 0 then Fin 0 else of_magnitude (0 < x) (round_to (ulp \<bar>x\<bar>) \<bar>x\<bar>))"

definition on_grid :: "rat \<Rightarrow> bool" where
  \<comment> \<open>a multiple of \<open>2^(-1074)\<close>, as every finite double is\<close>
  "on_grid x = (\<exists>m::int. x = of_int m * pow2 (- 1074))"

fun is_double :: "jsnum \<Rightarrow> bool" where
  "is_double (Fin a) = on_grid a"
| "is_double x = True"

subsection \<open>Arithmetic and comparisons\<close>

fun nadd :: "jsnum \<Rightarrow> jsnum \<Rightarrow> jsnum" where
  "nadd NaN y = NaN"
| "nadd x NaN = NaN"
| "nadd (Fin a) (Fin b) = round_double (a + b)"
| "nadd PInf NInf = NaN"
| "nadd NInf PInf = NaN"
| "nadd PInf y = PInf"
| "nadd x PInf = PInf"
| "nadd NInf y = NInf"
| "nadd x NInf = NInf"

fun nneg :: "jsnum \<Rightarrow> jsnum" where
  "nneg (Fin a) = Fin (- a)"
| "nneg PInf = NInf"
| "nneg NInf = PInf"
| "nneg NaN = NaN"

definition nsub :: "jsnum \<Rightarrow> jsnum \<Rightarrow> jsnum" where
  \<comment> \<open>\<open>x - y\<close> is \<open>x + (-y)\<close>, and negation is exact\<close>
  "nsub x y = nadd x (nneg y)"

fun ndiv :: "jsnum \<Rightarrow> jsnum \<Rightarrow> jsnum" where
  \<comment> \<open>the program divides by the length of an array only; a zero divisor is taken as
      the positive zero\<close>
  "ndiv NaN y = NaN"
| "ndiv x NaN = NaN"
| "ndiv (Fin a) (Fin b) =
     (if b \<noteq> 0 then round_double (a / b)
      else if 0 < a then PInf else if a < 0 then NInf else NaN)"
| "ndiv (Fin a) y = Fin 0"
| "ndiv PInf (Fin b) = (if 0 \<le> b then PInf else NInf)"
| "ndiv NInf (Fin b) = (if 0 \<le> b then NInf else PInf)"
| "ndiv x y = NaN"

text \<open>\<open>nle x y\<close> is \<open>x <= y\<close> and \<open>nlt x y\<close> is \<open>x < y\<close>; a comparison with NaN is false.
  \<open>x >= y\<close> is \<open>nle y x\<close> and \<open>x > y\<close> is \<open>nlt y x\<close>.\<close>

fun nle :: "jsnum \<Rightarrow> jsnum \<Rightarrow> bool" where
  "nle NaN y = False"
| "nle x NaN = False"
| "nle (Fin a) (Fin b) = (a \<le> b)"
| "nle NInf y = True"
| "nle x PInf = True"
| "nle x y = False"

fun nlt :: "jsnum \<Rightarrow> jsnum \<Rightarrow> bool" where
  "nlt NaN y = False"
| "nlt x NaN = False"
| "nlt (Fin a) (Fin b) = (a < b)"
| "nlt PInf y = False"
| "nlt x NInf = False"
| "nlt x y = True"

definition nsum :: "jsnum list \<Rightarrow> jsnum" where
  \<comment> \<open>\<open>xs.reduce((a, b) => a + b, 0)\<close>\<close>
  "nsum xs = foldl nadd (Fin 0) xs"

text \<open>
  A field of a market holds \<open>undefined\<close> (the property is missing), \<open>null\<close>, a boolean,
  a number, a string, or an array of such values; objects nested in a field are not
  modelled. Strings are sequences of code units below 256.
\<close>

datatype jsval =
    JUndefined
  | JNull
  | JBool bool
  | JNum jsnum
  | JStr string
  | JArr "jsval list"

fun truthy :: "jsval \<Rightarrow> bool" where
  "truthy JUndefined = False"
| "truthy JNull = False"
| "truthy (JBool b) = b"
| "truthy (JNum n) = (n \<noteq> NaN \<and> n \<noteq> Fin 0)"
| "truthy (JStr s) = (s \<noteq> [])"
| "truthy (JArr xs) = True"

definition jor :: "jsval \<Rightarrow> jsval \<Rightarrow> jsval" where
  \<comment> \<open>\<open>a || b\<close>\<close>
  "jor a b = (if truthy a then a else b)"

fun index :: "jsval \<Rightarrow> nat \<Rightarrow> jsval" where
  \<comment> \<open>\<open>v?.[i]\<close>: \<open>undefined\<close> and \<open>null\<close> short-circuit, an array or a string is
      read at \<open>i\<close>, a number or a boolean has no such property\<close>
  "index (JArr xs) i = (if i < length xs then xs ! i else JUndefined)"
| "index (JStr s) i = (if i < length s then JStr [s ! i] else JUndefined)"
| "index v i = JUndefined"

subsection \<open>parseFloat\<close>

definition is_space :: "char \<Rightarrow> bool" where
  \<comment> \<open>TAB, LF, VT, FF, CR, SP, NBSP: the white space and line terminators below 256\<close>
  "is_space c = (c \<in> set [CHR 0x09, CHR 0x0A, CHR 0x0B, CHR 0x0C, CHR 0x0D, CHR 0x20, CHR 0xA0])"

definition is_digit :: "char \<Rightarrow> bool" where
  "is_digit c = (c \<in> set ''0123456789'')"

definition digit_val :: "char \<Rightarrow> int" where
  "digit_val c = of_char c - 48"

definition digits_val :: "string \<Rightarrow> int" where
  "digits_val ds = foldl (\<lambda>a c. 10 * a + digit_val c) 0 ds"

definition pow10 :: "int \<Rightarrow> rat" where
  "pow10 e = (if 0 \<le> e then 10 ^ nat e else 1 / 10 ^ nat (- e))"

definition split_sign :: "string \<Rightarrow> rat \<times> string" where
  "split_sign s =
     (case s of
        c # r \<Rightarrow> if c = CHR ''-'' then (- 1, r) else if c = CHR ''+'' then (1, r) else (1, s)
      | [] \<Rightarrow> (1, s))"

definition exponent :: "string \<Rightarrow> int" where
  \<comment> \<open>an exponent part counts only when at least one digit follows\<close>
  "exponent s =
     (case s of
        c # r \<Rightarrow>
          if c = CHR ''e'' \<or> c = CHR ''E'' then
            (let (sg, t) = split_sign r; ds = takeWhile is_digit t
             in if ds = [] then 0 else (if sg < 0 then - digits_val ds else digits_val ds))
          else 0
      | [] \<Rightarrow> 0)"

definition parseFloatStr :: "string \<Rightarrow> jsnum" where
  \<comment> \<open>the longest prefix, after leading white space, that is a decimal literal; the
      result is the double nearest to its value\<close>
  "parseFloatStr s =
     (let (sg, t) = split_sign (dropWhile is_space s) in
      if take 8 t = ''Infinity'' then (if sg < 0 then NInf else PInf)
      else
        let ip = takeWhile is_digit t;
            r1 = dropWhile is_digit t;
            fp = (case r1 of c # u \<Rightarrow> if c = CHR ''.'' then takeWhile is_digit u else [] | [] \<Rightarrow> []);
            r2 = (case r1 of c # u \<Rightarrow> if c = CHR ''.'' then dropWhile is_digit u else r1 | [] \<Rightarrow> r1)
        in if ip = [] \<and> fp = [] then NaN
           else round_double (sg * (of_int (digits_val ip) + of_int (digits_val fp) / 10 ^ length fp)
                                 * pow10 (exponent r2)))"

fun parseFloat :: "jsval \<Rightarrow> jsnum" where
  \<comment> \<open>the argument is converted to a string first: a number prints to a string that
      parses back to it; an array prints its elements joined by commas, so only its
      first element can contribute; \<open>undefined\<close>, \<open>null\<close>, \<open>true\<close> and \<open>false\<close> print to
      words that are no number\<close>
  "parseFloat (JNum n) = n"
| "parseFloat (JStr s) = parseFloatStr s"
| "parseFloat (JArr (x # xs)) = parseFloat x"
| "parseFloat v = NaN"

section \<open>Markets and opportunities\<close>

record market =
  question :: jsval
  title :: jsval
  outcomes :: jsval
  outcomePrices :: jsval
  yes_price :: jsval
  no_price :: jsval
  volume :: jsval
  volumeNum :: jsval
  market_id :: jsval

datatype arb_type = BASIC_ARB | CORRELATED_DATE_ARB | MUTUALLY_EXCLUSIVE_ARB

text \<open>The \<open>strategy\<close> field of an opportunity, a display string, is not modelled.\<close>

record opportunity =
  otype :: arb_type
  name :: jsval
  edge :: jsnum
  cost :: jsnum
  payout :: jsnum
  prices :: "jsnum list"
  marketCount :: nat
  totalVolume :: jsnum
  opp_markets :: "market list"

record group =
  event :: string
  markets :: "market list"

definition half :: jsval where
  "half = JNum (Fin (1 / 2))"

definition market_volume :: "market \<Rightarrow> jsnum" where
  \<comment> \<open>\<open>parseFloat(m.volume || m.volumeNum || 0)\<close>\<close>
  "market_volume m = parseFloat (jor (jor (volume m) (volumeNum m)) (JNum (Fin 0)))"

definition market_name :: "market \<Rightarrow> jsval" where
  \<comment> \<open>\<open>market.question || market.title || 'Unknown Market'\<close>\<close>
  "market_name m = jor (jor (question m) (title m)) (JStr ''Unknown Market'')"

section \<open>The three detection rules (scanner.js)\<close>

definition yesPrice :: "market \<Rightarrow> jsnum" where
  "yesPrice m = parseFloat (jor (jor (index (outcomePrices m) 0) (yes_price m)) half)"

definition noPrice :: "market \<Rightarrow> jsnum" where
  "noPrice m = parseFloat (jor (jor (index (outcomePrices m) 1) (no_price m)) half)"

definition detectBasicArb :: "market \<Rightarrow> opportunity option" where
  "detectBasicArb m =
     (let totalCost = nadd (yesPrice m) (noPrice m);
          e = nsub (Fin 1) totalCost
      in if nle e (Fin 0) then None
         else Some \<lparr> otype = BASIC_ARB, name = market_name m, edge = e, cost = totalCost,
                     payout = Fin 1, prices = [yesPrice m, noPrice m], marketCount = 1,
                     totalVolume = market_volume m, opp_markets = [m] \<rparr>)"

function nat_str :: "nat \<Rightarrow> string" where
  \<comment> \<open>an array length printed in a template string\<close>
  "nat_str n =
     (if n < 10 then [''0123456789'' ! n] else nat_str (n div 10) @ [''0123456789'' ! (n mod 10)])"
  by pat_completeness auto
termination
  by (relation "measure (\<lambda>n. n)") auto

declare nat_str.simps [simp del]

definition detectCorrelatedArb :: "group \<Rightarrow> opportunity option" where
  \<comment> \<open>an array has fewer than \<open>2^32\<close> elements: its length \<open>n\<close> and \<open>n - 1\<close> are exact\<close>
  "detectCorrelatedArb g =
     (let ms = markets g; n = length ms in
      if n < 2 then None
      else
        let noPrices = map noPrice ms;
            totalNoCost = nsum noPrices;
            minPayout = Fin (of_nat n - 1);
            e = ndiv (nsub minPayout totalNoCost) (Fin (of_nat n))
        in if nle e (Fin 0) then None
           else Some \<lparr> otype = CORRELATED_DATE_ARB,
                       name = JStr (event g @ '' ('' @ nat_str n @ '' date markets)''),
                       edge = e, cost = totalNoCost, payout = minPayout, prices = noPrices,
                       marketCount = n,
                       totalVolume = foldl (\<lambda>s m. nadd s (market_volume m)) (Fin 0) ms,
                       opp_markets = ms \<rparr>)"

datatype error = SyntaxError | TypeError

fun jlength :: "jsval \<Rightarrow> nat option" where
  \<comment> \<open>the \<open>length\<close> property: arrays and strings have one, for the other values it is
      \<open>undefined\<close> (\<open>None\<close>)\<close>
  "jlength (JArr xs) = Some (length xs)"
| "jlength (JStr s) = Some (length s)"
| "jlength v = None"

text \<open>
  \<open>JSON.parse\<close> is the platform's decoder. The rule is modelled for any decoder
  \<open>JSON_parse\<close>, which raises a syntax error or gives the decoded value. A decoded value
  that is not an array has no \<open>map\<close> method, and the call raises a type error. Both
  errors are raised inside the \<open>try\<close> block, whose \<open>catch\<close> ends the rule with
  \<open>return null\<close>.
\<close>

definition try_prices :: "(string \<Rightarrow> error + jsval) \<Rightarrow> string \<Rightarrow> error + jsnum list" where
  \<comment> \<open>the \<open>try\<close> block: \<open>JSON.parse(market.outcomePrices).map(p => parseFloat(p))\<close>\<close>
  "try_prices JSON_parse s =
     (case JSON_parse s of
        Inl e \<Rightarrow> Inl e
      | Inr (JArr xs) \<Rightarrow> Inr (map parseFloat xs)
      | Inr d \<Rightarrow> Inl TypeError)"

definition decode_prices :: "(string \<Rightarrow> error + jsval) \<Rightarrow> jsval \<Rightarrow> jsnum list option" where
  \<comment> \<open>the prices, or \<open>None\<close> where the rule returns \<open>null\<close>\<close>
  "decode_prices JSON_parse v =
     (case v of
        JArr xs \<Rightarrow> Some (map parseFloat xs)
      | JStr s \<Rightarrow> (case try_prices JSON_parse s of Inl e \<Rightarrow> None | Inr ps \<Rightarrow> Some ps)
      | _ \<Rightarrow> None)"

definition detectMutuallyExclusiveArb ::
    "(string \<Rightarrow> error + jsval) \<Rightarrow> market \<Rightarrow> opportunity option" where
  "detectMutuallyExclusiveArb JSON_parse m =
     (let outs = jor (outcomes m) (JArr []) in
      if (case jlength outs of Some n \<Rightarrow> n < 3 | None \<Rightarrow> False) then None
      else
        case decode_prices JSON_parse (outcomePrices m) of
          None \<Rightarrow> None
        | Some ps \<Rightarrow>
            if Some (length ps) \<noteq> jlength outs then None
            else
              let totalCost = nsum ps;
                  e = nsub (Fin 1) totalCost
              in if nle e (Fin 0) then None
                 else Some \<lparr> otype = MUTUALLY_EXCLUSIVE_ARB, name = market_name m, edge = e,
                             cost = totalCost, payout = Fin 1, prices = ps, marketCount = 1,
                             totalVolume = market_volume m, opp_markets = [m] \<rparr>)"

subsection \<open>Calling a rule\<close>





section \<open>Grouping related markets (polymarket.js)\<close>

subsection \<open>The regular expressions of extractBaseEvent\<close>

definition is_word :: "char \<Rightarrow> bool" where
  \<comment> \<open>the class \<open>\w\<close>\<close>
  "is_word c =
     (c \<in> set ''abcdefghijklmnopqrstuvwxyzABCDEFGHIJKLMNOPQRSTUVWXYZ0123456789_'')"

definition lower :: "char \<Rightarrow> char" where
  \<comment> \<open>the flag \<open>i\<close>: only the letters A to Z fold onto a to z\<close>
  "lower c =
     (case map_of (zip ''ABCDEFGHIJKLMNOPQRSTUVWXYZ'' ''abcdefghijklmnopqrstuvwxyz'') c of
        Some d \<Rightarrow> d
      | None \<Rightarrow> c)"

definition wb :: "char option \<Rightarrow> string \<Rightarrow> bool" where
  \<comment> \<open>\<open>\b\<close> between the character before the position (if any) and the rest\<close>
  "wb prev s =
     ((case prev of Some p \<Rightarrow> is_word p | None \<Rightarrow> False)
        \<noteq> (case s of c # r \<Rightarrow> is_word c | [] \<Rightarrow> False))"

definition wb_end :: "string \<Rightarrow> nat option" where
  \<comment> \<open>a final \<open>\b\<close> after a word character: the input ends or goes on with a
      character that is not one\<close>
  "wb_end s = (case s of c # r \<Rightarrow> if is_word c then None else Some 0 | [] \<Rightarrow> Some 0)"

fun ci_prefix :: "string \<Rightarrow> string \<Rightarrow> bool" where
  "ci_prefix [] s = True"
| "ci_prefix (p # ps) [] = False"
| "ci_prefix (p # ps) (c # cs) = (lower c = p \<and> ci_prefix ps cs)"

fun alt :: "string list \<Rightarrow> (string \<Rightarrow> nat option) \<Rightarrow> string \<Rightarrow> nat option" where
  \<comment> \<open>\<open>(w1|w2|...)\<close> followed by the rest \<open>k\<close> of the pattern: the alternatives are
      tried in order, the next one when the rest fails; the result is the length matched\<close>
  "alt [] k s = None"
| "alt (w # ws) k s =
     (if ci_prefix w s then
        (case k (drop (length w) s) of Some n \<Rightarrow> Some (length w + n) | None \<Rightarrow> alt ws k s)
      else alt ws k s)"

fun digits12 :: "string \<Rightarrow> nat option" where
  \<comment> \<open>\<open>\d{1,2}\b\<close>: two digits first, then one\<close>
  "digits12 (a # b # r) =
     (if is_digit a \<and> is_digit b \<and> wb_end r = Some 0 then Some 2
      else if is_digit a \<and> wb_end (b # r) = Some 0 then Some 1 else None)"
| "digits12 [a] = (if is_digit a then Some 1 else None)"
| "digits12 [] = None"

fun digits4 :: "string \<Rightarrow> nat option" where
  \<comment> \<open>\<open>\d{4}\b\<close>\<close>
  "digits4 (a # b # c # d # r) =
     (if is_digit a \<and> is_digit b \<and> is_digit c \<and> is_digit d \<and> wb_end r = Some 0
      then Some 4 else None)"
| "digits4 s = None"

definition months :: "string list" where
  "months = [''january'', ''february'', ''march'', ''april'', ''may'', ''june'', ''july'',
             ''august'', ''september'', ''october'', ''november'', ''december'']"

definition date_token :: "string \<Rightarrow> nat option" where
  \<comment> \<open>\<open>(january|...|december|\d{1,2}|\d{4})\b\<close>\<close>
  "date_token s =
     (case alt months wb_end s of
        Some n \<Rightarrow> Some n
      | None \<Rightarrow> (case digits12 s of Some n \<Rightarrow> Some n | None \<Rightarrow> digits4 s))"

definition spaces_then :: "(string \<Rightarrow> nat option) \<Rightarrow> string \<Rightarrow> nat option" where
  \<comment> \<open>\<open>\s+\<close> followed by the rest \<open>k\<close> of the pattern. The run of white space is taken
      whole: each rest used here starts with a letter or a digit, so giving white space
      back cannot make it match\<close>
  "spaces_then k s =
     (let n = length (takeWhile is_space s) in
      if n = 0 then None
      else (case k (drop n s) of Some j \<Rightarrow> Some (n + j) | None \<Rightarrow> None))"

definition match_date :: "char option \<Rightarrow> string \<Rightarrow> nat option" where
  \<comment> \<open>\<open>/\b(by|before|after|in|on)\s+(january|...|december|\d{1,2}|\d{4})\b/gi\<close> at one
      position: the length of the match\<close>
  "match_date prev s =
     (if wb prev s
      then alt [''by'', ''before'', ''after'', ''in'', ''on''] (spaces_then date_token) s
      else None)"

definition ord_tail :: "string \<Rightarrow> nat option" where
  \<comment> \<open>\<open>(st|nd|rd|th)?\b\<close>: with the suffix first, then without\<close>
  "ord_tail s =
     (case alt [''st'', ''nd'', ''rd'', ''th''] wb_end s of Some n \<Rightarrow> Some n | None \<Rightarrow> wb_end s)"

fun ordinal :: "string \<Rightarrow> nat option" where
  \<comment> \<open>\<open>\d{1,2}(st|nd|rd|th)?\b\<close>: two digits first, then one\<close>
  "ordinal (a # b # r) =
     (if is_digit a \<and> is_digit b \<and> ord_tail r \<noteq> None then map_option (\<lambda>n. 2 + n) (ord_tail r)
      else if is_digit a then map_option (\<lambda>n. 1 + n) (ord_tail (b # r)) else None)"
| "ordinal [a] = (if is_digit a then Some 1 else None)"
| "ordinal [] = None"

definition match_ordinal :: "char option \<Rightarrow> string \<Rightarrow> nat option" where
  \<comment> \<open>\<open>/\b\d{1,2}(st|nd|rd|th)?\b/gi\<close>\<close>
  "match_ordinal prev s = (if wb prev s then ordinal s else None)"

definition match_yesno :: "char option \<Rightarrow> string \<Rightarrow> nat option" where
  \<comment> \<open>\<open>/\b(yes|no)\b/gi\<close>\<close>
  "match_yesno prev s = (if wb prev s then alt [''yes'', ''no''] wb_end s else None)"

definition match_spaces :: "char option \<Rightarrow> string \<Rightarrow> nat option" where
  \<comment> \<open>\<open>/\s+/g\<close>\<close>
  "match_spaces prev s =
     (let n = length (takeWhile is_space s) in if n = 0 then None else Some n)"

function replace_all ::
    "(char option \<Rightarrow> string \<Rightarrow> nat option) \<Rightarrow> string \<Rightarrow> char option \<Rightarrow> string \<Rightarrow> string" where
  \<comment> \<open>\<open>s.replace(/.../g, rep)\<close>: scan from the left; at a match put \<open>rep\<close> and go on
      after it, else keep the character. \<open>prev\<close> is the character before the position.
      None of the patterns matches the empty string\<close>
  "replace_all mt rep prev [] = []"
| "replace_all mt rep prev (c # cs) =
     (case mt prev (c # cs) of
        Some (Suc n) \<Rightarrow> rep @ replace_all mt rep (Some (last (take (Suc n) (c # cs)))) (drop n cs)
      | _ \<Rightarrow> c # replace_all mt rep (Some c) cs)"
  by pat_completeness auto
termination
  by (relation "measure (\<lambda>(mt, rep, prev, s). length s)") auto

definition trim :: "string \<Rightarrow> string" where
  "trim s = rev (dropWhile is_space (rev (dropWhile is_space s)))"

definition extractBaseEvent :: "string \<Rightarrow> string" where
  "extractBaseEvent q =
     take 50 (trim
       (replace_all match_spaces '' '' None
         (replace_all match_yesno [] None
           (replace_all match_ordinal [] None
             (replace_all match_date [] None q)))))"

subsection \<open>findRelatedMarkets\<close>

text \<open>
  \<open>groups\<close> is a plain object used as a dictionary, modelled as an association list in
  the order the keys were created. Three traits of such an object show in the result:
  \<^item> a key that is also a property of \<open>Object.prototype\<close> is found (and truthy) before it
    was ever stored, so no array is created for it and the call of \<open>push\<close> on the
    inherited value raises a type error;
  \<^item> \<open>Object.entries\<close> lists the keys that are array indices (canonical decimal numerals
    below \<open>2^32 - 1\<close>) first, in ascending numeric order, and the other keys after
    them in creation order;
  \<^item> \<open>market.question || ''\<close> may be a truthy value that is not a string; it has no
    \<open>replace\<close> method, and extractBaseEvent raises a type error.
\<close>

definition object_prototype_keys :: "string list" where
  "object_prototype_keys =
     [''constructor'', ''__defineGetter__'', ''__defineSetter__'', ''hasOwnProperty'',
      ''__lookupGetter__'', ''__lookupSetter__'', ''isPrototypeOf'', ''propertyIsEnumerable'',
      ''toString'', ''valueOf'', ''__proto__'', ''toLocaleString'']"

definition is_array_index :: "string \<Rightarrow> bool" where
  "is_array_index k =
     (k \<noteq> [] \<and> list_all is_digit k \<and> (k = ''0'' \<or> hd k \<noteq> CHR ''0'')
      \<and> digits_val k < 4294967295)"

definition entries :: "(string \<times> 'a) list \<Rightarrow> (string \<times> 'a) list" where
  "entries g =
     sort_key (\<lambda>kv. digits_val (fst kv)) (filter (\<lambda>kv. is_array_index (fst kv)) g)
       @ filter (\<lambda>kv. \<not> is_array_index (fst kv)) g"

fun push :: "(string \<times> market list) list \<Rightarrow> string \<Rightarrow> market \<Rightarrow> (string \<times> market list) list" where
  \<comment> \<open>\<open>if (!groups[k]) groups[k] = []; groups[k].push(m)\<close> for a key that is not
      inherited\<close>
  "push [] k m = [(k, [m])]"
| "push ((k', ms) # g) k m = (if k' = k then (k', ms @ [m]) # g else (k', ms) # push g k m)"

definition question_text :: "market \<Rightarrow> error + string" where
  \<comment> \<open>the argument \<open>market.question || ''\<close> of extractBaseEvent\<close>
  "question_text m = (case jor (question m) (JStr []) of JStr s \<Rightarrow> Inr s | _ \<Rightarrow> Inl TypeError)"

fun bucket :: "(string \<times> market list) list \<Rightarrow> market list \<Rightarrow> error + (string \<times> market list) list" where
  "bucket g [] = Inr g"
| "bucket g (m # ms) =
     (case question_text m of
        Inl e \<Rightarrow> Inl e
      | Inr q \<Rightarrow>
          (let baseEvent = extractBaseEvent q in
           if baseEvent \<in> set object_prototype_keys then Inl TypeError
           else bucket (push g baseEvent m) ms))"

definition findRelatedMarkets :: "market list \<Rightarrow> error + group list" where
  "findRelatedMarkets ms =
     (case bucket [] ms of
        Inl e \<Rightarrow> Inl e
      | Inr g \<Rightarrow>
          Inr (map (\<lambda>kv. \<lparr> event = fst kv, markets = snd kv \<rparr>)
                 (filter (\<lambda>kv. 1 < length (snd kv)) (entries g))))"

section \<open>The scan pipeline (scanner.js)\<close>

definition scanner_MIN_EDGE :: jsnum where
  \<comment> \<open>the literal \<open>0.02\<close>\<close>
  "scanner_MIN_EDGE = round_double (2 / 100)"

definition admit :: "jsnum \<Rightarrow> opportunity option \<Rightarrow> opportunity list" where
  \<comment> \<open>\<open>if (arb && arb.edge >= MIN_EDGE) opportunities.push(arb)\<close>\<close>
  "admit min_edge arb =
     (case arb of Some a \<Rightarrow> if nle min_edge (edge a) then [a] else [] | None \<Rightarrow> [])"

definition multiOutcome :: "market \<Rightarrow> bool" where
  \<comment> \<open>\<open>(m.outcomes?.length || 0) > 2\<close>\<close>
  "multiOutcome m = (case jlength (outcomes m) of Some n \<Rightarrow> 2 < n | None \<Rightarrow> False)"

text \<open>
  \<open>opportunities.sort((a, b) => b.edge - a.edge)\<close>: the sort is stable, and an element
  moves behind another only when the comparator is positive (a NaN result counts as
  zero). It is modelled as stable insertion; on a list whose edges are all numbers
  every stable sort gives this result.
\<close>

fun insort_opp :: "opportunity \<Rightarrow> opportunity list \<Rightarrow> opportunity list" where
  "insort_opp a [] = [a]"
| "insort_opp a (b # bs) =
     (if nlt (Fin 0) (nsub (edge b) (edge a)) then b # insort_opp a bs else a # b # bs)"

definition sort_opps :: "opportunity list \<Rightarrow> opportunity list" where
  "sort_opps xs = foldr insort_opp xs []"

definition scan_opportunities ::
    "(string \<Rightarrow> error + jsval) \<Rightarrow> market list \<Rightarrow> error + opportunity list" where
  \<comment> \<open>the array \<open>opportunities\<close> after the three passes and the sort\<close>
  "scan_opportunities JSON_parse ms =
     (let basic = concat (map (\<lambda>m. admit scanner_MIN_EDGE (detectBasicArb m)) ms) in
      case findRelatedMarkets ms of
        Inl e \<Rightarrow> Inl e
      | Inr groups \<Rightarrow>
          (let correlated = concat (map (\<lambda>g. admit scanner_MIN_EDGE (detectCorrelatedArb g)) groups);
               exclusive = concat (map (\<lambda>m. admit scanner_MIN_EDGE (detectMutuallyExclusiveArb JSON_parse m))
                                     (filter multiOutcome ms))
           in Inr (sort_opps (basic @ correlated @ exclusive))))"

definition mock_market :: "string \<Rightarrow> string list \<Rightarrow> string \<Rightarrow> string list \<Rightarrow> market" where
  "mock_market q ps v os =
     \<lparr> question = JStr q, title = JUndefined, outcomes = JArr (map JStr os),
       outcomePrices = JArr (map JStr ps), yes_price = JUndefined, no_price = JUndefined,
       volume = JStr v, volumeNum = JUndefined, market_id = JUndefined \<rparr>"

definition getMockMarkets :: "market list" where
  "getMockMarkets =
     [mock_market ''US strikes Iran by March 2026?'' [''0.15'', ''0.82''] ''1500000'' [''Yes'', ''No''],
      mock_market ''US strikes Iran by April 2026?'' [''0.22'', ''0.75''] ''800000'' [''Yes'', ''No''],
      mock_market ''US strikes Iran by June 2026?'' [''0.35'', ''0.62''] ''500000'' [''Yes'', ''No''],
      mock_market ''Bitcoin above $100k end of 2026?'' [''0.45'', ''0.52''] ''5000000'' [''Yes'', ''No''],
      mock_market ''Who wins 2028 Presidential Election?''
        [''0.35'', ''0.30'', ''0.15'', ''0.10'', ''0.05''] ''10000000''
        [''DeSantis'', ''Newsom'', ''Trump'', ''Harris'', ''Other'']]"

text \<open>
  Before it returns the list, scan prints a report for each of the first ten
  opportunities. generateQuantumReport calls \<open>arb.name.substring\<close>, which raises a type
  error when the name is not a string (a market without question whose title is, say,
  a number); everything else in the report is computed from numbers.
\<close>

definition report_raises :: "opportunity \<Rightarrow> bool" where
  "report_raises a = (case name a of JStr s \<Rightarrow> False | _ \<Rightarrow> True)"

definition scan ::
    "(string \<Rightarrow> error + jsval) \<Rightarrow> market list option \<Rightarrow> error + opportunity list option" where
  \<comment> \<open>\<open>fetched\<close> is what getMarkets gave, \<open>None\<close> when it failed (the mock markets are
      used then); the result is \<open>None\<close> for the bare \<open>return\<close> taken when nothing was found\<close>
  "scan JSON_parse fetched =
     (case scan_opportunities JSON_parse (case fetched of Some ms \<Rightarrow> ms | None \<Rightarrow> getMockMarkets) of
        Inl e \<Rightarrow> Inl e
      | Inr opps \<Rightarrow>
          if opps = [] then Inr None
          else if list_ex report_raises (take 10 opps) then Inl TypeError
          else Inr (Some opps))"

section \<open>The watcher (watcher.js)\<close>

definition watcher_MIN_EDGE :: jsnum where
  \<comment> \<open>the literal \<open>0.03\<close>\<close>
  "watcher_MIN_EDGE = round_double (3 / 100)"

text \<open>
  Printing a number in a template string is the platform's conversion; it is a
  parameter \<open>num_str\<close> of the model. An array prints its elements joined by commas, with
  \<open>undefined\<close> and \<open>null\<close> elements printed as the empty string.
\<close>

fun toString :: "(jsnum \<Rightarrow> string) \<Rightarrow> jsval \<Rightarrow> string"
  and join_elems :: "(jsnum \<Rightarrow> string) \<Rightarrow> jsval list \<Rightarrow> string" where
  "toString num_str JUndefined = ''undefined''"
| "toString num_str JNull = ''null''"
| "toString num_str (JBool b) = (if b then ''true'' else ''false'')"
| "toString num_str (JNum n) = num_str n"
| "toString num_str (JStr s) = s"
| "toString num_str (JArr xs) = join_elems num_str xs"
| "join_elems num_str [] = []"
| "join_elems num_str (x # xs) =
     (if x = JUndefined \<or> x = JNull then [] else toString num_str x)
       @ (if xs = [] then [] else CHR '','' # join_elems num_str xs)"

text \<open>An opportunity of the watcher: \<open>{id, type: 'BASIC', name, edge, yesPrice, noPrice}\<close>
  or \<open>{id, type: 'CORRELATED', name, edge, marketCount, totalCost, minPayout}\<close>.\<close>

datatype wopp =
    WBasic (wid: string) (wname: jsval) (wedge: jsnum) jsnum jsnum
  | WCorrelated (wid: string) (wname: jsval) (wedge: jsnum) nat jsnum jsnum

definition watch_price :: "market \<Rightarrow> nat \<Rightarrow> jsnum" where
  \<comment> \<open>\<open>parseFloat(market.outcomePrices?.[i] || 0.5)\<close>\<close>
  "watch_price m i = parseFloat (jor (index (outcomePrices m) i) half)"

definition watch_basic :: "(jsnum \<Rightarrow> string) \<Rightarrow> market \<Rightarrow> wopp list" where
  "watch_basic num_str m =
     (let y = watch_price m 0;
          n = watch_price m 1;
          e = nsub (Fin 1) (nadd y n)
      in if nle watcher_MIN_EDGE e
         then [WBasic (''basic:'' @ toString num_str (jor (market_id m) (question m)))
                 (jor (question m) (JStr ''Unknown'')) e y n]
         else [])"

definition watch_correlated :: "group \<Rightarrow> wopp list" where
  "watch_correlated g =
     (let ms = markets g; n = length ms in
      if n < 2 then []
      else
        let noPrices = map (\<lambda>m. watch_price m 1) ms;
            totalCost = nsum noPrices;
            minPayout = Fin (of_nat n - 1);
            e = ndiv (nsub minPayout totalCost) (Fin (of_nat n))
        in if nle watcher_MIN_EDGE e
           then [WCorrelated (''correlated:'' @ event g) (JStr (event g)) e n totalCost minPayout]
           else [])"

definition watch_opportunities :: "(jsnum \<Rightarrow> string) \<Rightarrow> market list \<Rightarrow> error + wopp list" where
  \<comment> \<open>the array \<open>opportunities\<close> of one cycle\<close>
  "watch_opportunities num_str ms =
     (let basic = concat (map (watch_basic num_str) ms) in
      case findRelatedMarkets ms of
        Inl e \<Rightarrow> Inl e
      | Inr groups \<Rightarrow> Inr (basic @ concat (map watch_correlated groups)))"

text \<open>
  \<open>seenOpportunities\<close> is a Set of identity keys, modelled as the list of its elements
  in insertion order (so without repetition); its size is the length of the list.
  The loop over the opportunities adds a new key first and then builds the alert;
  \<open>opp.name.substring\<close> raises a type error when the name is not a string, which ends
  the cycle with the key already added and that alert not sent. The result is the
  error (if any), the opportunities handed to sendTelegramAlert, and the Set.
\<close>

fun report :: "string list \<Rightarrow> wopp list \<Rightarrow> error option \<times> wopp list \<times> string list" where
  "report seen [] = (None, [], seen)"
| "report seen (opp # opps) =
     (if wid opp \<in> set seen then report seen opps
      else
        (case wname opp of
           JStr s \<Rightarrow>
             (case report (seen @ [wid opp]) opps of
                (e, sent, seen') \<Rightarrow> (e, opp # sent, seen'))
         | _ \<Rightarrow> (Some TypeError, [], seen @ [wid opp])))"

definition housekeeping :: "string list \<Rightarrow> string list" where
  \<comment> \<open>\<open>if (seenOpportunities.size > 1000) seenOpportunities.clear()\<close>\<close>
  "housekeeping seen = (if 1000 < length seen then [] else seen)"

definition watchCycle ::
    "(jsnum \<Rightarrow> string) \<Rightarrow> string list \<Rightarrow> market list option
       \<Rightarrow> error option \<times> wopp list \<times> string list" where
  \<comment> \<open>\<open>fetched\<close> is what getMarkets gave, \<open>None\<close> when it failed (the cycle returns at
      once). An error leaves the cycle before the housekeeping\<close>
  "watchCycle num_str seen fetched =
     (case fetched of
        None \<Rightarrow> (None, [], seen)
      | Some ms \<Rightarrow>
          (case watch_opportunities num_str ms of
             Inl e \<Rightarrow> (Some e, [], seen)
           | Inr opps \<Rightarrow>
               (case report seen opps of
                  (None, sent, seen') \<Rightarrow> (None, sent, housekeeping seen')
                | (Some e, sent, seen') \<Rightarrow> (Some e, sent, seen'))))"

section \<open>The specification's reading of a price\<close>

definition spec_price :: "market \<Rightarrow> nat \<Rightarrow> jsnum" where
  \<comment> \<open>the \<open>i\<close>-th outcome price, 0.5 when it is absent\<close>
  "spec_price m i =
     (case index (outcomePrices m) i of JUndefined \<Rightarrow> Fin (1 / 2) | v \<Rightarrow> parseFloat v)"


definition canonical_key :: "market \<Rightarrow> string" where
  \<comment> \<open>the key findRelatedMarkets files a market under, when its question is a string
      or falsy\<close>
  "canonical_key m = extractBaseEvent (case jor (question m) (JStr []) of JStr s \<Rightarrow> s | _ \<Rightarrow> [])"

definition first_seen :: "'a list \<Rightarrow> 'a list" where
  \<comment> \<open>the distinct elements in the order of their first occurrence\<close>
  "first_seen xs = rev (remdups (rev xs))"

section \<open>Sample inputs\<close>

definition price_market :: "jsval \<Rightarrow> jsval \<Rightarrow> jsval \<Rightarrow> market" where
  \<comment> \<open>a two-outcome market with the given \<open>outcomePrices\<close>, \<open>yes_price\<close> and \<open>no_price\<close>\<close>
  "price_market ps y n =
     \<lparr> question = JStr ''Q'', title = JUndefined, outcomes = JArr [JStr ''Yes'', JStr ''No''],
       outcomePrices = ps, yes_price = y, no_price = n, volume = JUndefined,
       volumeNum = JUndefined, market_id = JUndefined \<rparr>"

definition no_decoder :: "string \<Rightarrow> error + jsval" where
  \<comment> \<open>a decoder that rejects every text\<close>
  "no_decoder s = Inl SyntaxError"


definition lose_group :: "string list \<Rightarrow> group" where
  \<comment> \<open>a group of two-outcome markets with the given second (lose) prices\<close>
  "lose_group ps =
     \<lparr> event = ''E'', markets = map (\<lambda>p. mock_market ''Q'' [''0.5'', p] ''1'' [''Yes'', ''No'']) ps \<rparr>"

definition zero_group :: group where
  \<comment> \<open>two markets that quote the number 0 as their second price\<close>
  "zero_group =
     \<lparr> event = ''E'',
       markets = [price_market (JArr [JNum (Fin (1 / 2)), JNum (Fin 0)]) JUndefined JUndefined,
                  price_market (JArr [JNum (Fin (1 / 2)), JNum (Fin 0)]) JUndefined JUndefined] \<rparr>"


definition strip_volume :: "market \<Rightarrow> market" where
  \<comment> \<open>a market with its two volume fields erased\<close>
  "strip_volume m = m\<lparr>volume := JUndefined, volumeNum := JUndefined\<rparr>"

definition signal ::
    "opportunity \<Rightarrow> arb_type \<times> jsval \<times> jsnum \<times> jsnum \<times> jsnum \<times> jsnum list \<times> nat" where
  \<comment> \<open>an opportunity without its aggregate volume and its references to the markets\<close>
  "signal a = (otype a, name a, edge a, cost a, payout a, prices a, marketCount a)"

definition const_num_str :: "jsnum \<Rightarrow> string" where
  \<comment> \<open>a stand-in for the number printer; the sample markets have no numeric id\<close>
  "const_num_str n = ''NaN''"

definition thousand_keys :: "string list" where
  \<comment> \<open>1000 different keys, none of them the key of a sample market\<close>
  "thousand_keys = map (\<lambda>n. replicate n (CHR ''a'')) [0..<1000]"

definition buckets :: "market list \<Rightarrow> (string \<times> market list) list" where
  \<comment> \<open>the markets filed under their canonical keys, the keys in first-seen order\<close>
  "buckets ms =
     map (\<lambda>k. (k, filter (\<lambda>m. canonical_key m = k) ms)) (first_seen (map canonical_key ms))"

definition question_market :: "string \<Rightarrow> market" where
  \<comment> \<open>a two-outcome market with the given question, quoted at 0.5 and 0.5\<close>
  "question_market q = mock_market q [''0.5'', ''0.5''] ''1'' [''Yes'', ''No'']"

section \<open>Evaluation rules and arithmetic facts\<close>

lemma bitlen_numeral:
  "bitlen 1 = 1"
  "bitlen (numeral Num.One) = 1"
  "bitlen (numeral (Num.Bit0 n)) = bitlen (numeral n) + 1"
  "bitlen (numeral (Num.Bit1 n)) = bitlen (numeral n) + 1"
proof -
  show "bitlen 1 = 1" "bitlen (numeral Num.One) = 1"
    by (simp_all add: compute_bitlen)
  have "numeral (Num.Bit0 n) div (2::int) = numeral n" "numeral (Num.Bit1 n) div (2::int) = numeral n"
    by simp_all
  then show "bitlen (numeral (Num.Bit0 n)) = bitlen (numeral n) + 1"
    "bitlen (numeral (Num.Bit1 n)) = bitlen (numeral n) + 1"
    using compute_bitlen [of "numeral (Num.Bit0 n)"] compute_bitlen [of "numeral (Num.Bit1 n)"]
    by simp_all
qed

lemma floor_rat_numeral:
  "\<lfloor>(numeral a :: rat) / numeral b\<rfloor> = numeral a div numeral b"
  "\<lfloor>(1 :: rat) / numeral b\<rfloor> = 1 div numeral b"
  "\<lceil>(numeral a :: rat) / numeral b\<rceil> = - (- numeral a div numeral b)"
  using floor_divide_of_int_eq [of "numeral a" "numeral b", where ?'a = rat]
    floor_divide_of_int_eq [of 1 "numeral b", where ?'a = rat]
    ceiling_divide_eq_div [of "numeral a" "numeral b", where ?'a = rat]
  by simp_all

lemmas dbl_defs = round_double_def of_magnitude_def round_to_def ulp_def round_even_def ilog2_def
  pow2_def Let_def bitlen_numeral floor_rat_numeral

lemmas parse_defs = parseFloatStr_def split_sign_def is_space_def is_digit_def digits_val_def
  digit_val_def pow10_def exponent_def dbl_defs

lemmas basic_defs = detectBasicArb_def yesPrice_def noPrice_def jor_def half_def nsub_def
  market_name_def market_volume_def price_market_def mock_market_def Let_def


lemma pow2_powi: "pow2 k = 2 powi k"
  by (simp add: pow2_def power_int_def power_one_over inverse_eq_divide)

lemma pow2_pos [simp]: "0 < pow2 k"
  by (simp add: pow2_powi)

lemma pow2_nonneg [simp]: "0 \<le> pow2 k"
  using pow2_pos [of k] by (rule less_imp_le)

lemma pow2_add: "pow2 (j + k) = pow2 j * pow2 k"
  by (simp add: pow2_powi power_int_add)

lemma pow2_mono: "j \<le> k \<Longrightarrow> pow2 j \<le> pow2 k"
  by (simp add: pow2_powi power_int_increasing)

lemma pow2_nat: "0 \<le> k \<Longrightarrow> pow2 k = of_int (2 ^ nat k)"
  by (simp add: pow2_def)

lemma ilog2_bounds:
  assumes "0 < a"
  shows "pow2 (ilog2 a) \<le> a \<and> a < pow2 (ilog2 a + 1)"
proof (cases "1 \<le> a")
  case True
  define n where "n = \<lfloor>a\<rfloor>"
  have n: "0 < n" "of_int n \<le> a" "a < of_int (n + 1)"
    using True by (simp_all add: n_def) linarith+
  from bitlen_bounds [OF n(1)]
  have b: "2 ^ nat (bitlen n - 1) \<le> n" "n + 1 \<le> 2 ^ nat (bitlen n)"
    by simp_all
  have b1: "1 \<le> bitlen n"
    using n(1) by (simp add: bitlen_alt_def)
  have "pow2 (bitlen n - 1) = of_int (2 ^ nat (bitlen n - 1))"
    using b1 by (intro pow2_nat) simp
  also have "\<dots> \<le> of_int n"
    using b(1) by (simp only: of_int_le_iff)
  finally have lo: "pow2 (bitlen n - 1) \<le> a"
    using n(2) by simp
  have "a < of_int (n + 1)" by (rule n(3))
  also have "\<dots> \<le> of_int (2 ^ nat (bitlen n))"
    using b(2) by (simp only: of_int_le_iff)
  also have "\<dots> = pow2 (bitlen n)"
    using b1 by (intro pow2_nat [symmetric]) simp
  finally have hi: "a < pow2 (bitlen n - 1 + 1)" by simp
  show ?thesis
    using True lo hi by (simp add: ilog2_def n_def)
next
  case False
  define n where "n = \<lceil>1 / a\<rceil> - 1"
  have y: "1 < 1 / a"
    using False assms by simp
  then have n: "0 < n" "of_int n < 1 / a" "1 / a \<le> of_int (n + 1)"
    by (simp_all add: n_def) linarith+
  from bitlen_bounds [OF n(1)]
  have b: "2 ^ nat (bitlen n - 1) \<le> n" "n + 1 \<le> 2 ^ nat (bitlen n)"
    by simp_all
  have b1: "1 \<le> bitlen n"
    using n(1) by (simp add: bitlen_alt_def)
  have "1 / a \<le> of_int (n + 1)" by (rule n(3))
  also have "\<dots> \<le> of_int (2 ^ nat (bitlen n))"
    using b(2) by (simp only: of_int_le_iff)
  also have "\<dots> = pow2 (bitlen n)"
    using b1 by (intro pow2_nat [symmetric]) simp
  finally have "1 / a \<le> pow2 (bitlen n)" .
  then have "1 \<le> pow2 (bitlen n) * a"
    using assms by (simp add: field_simps)
  then have lo: "pow2 (- bitlen n) \<le> a"
    using pow2_add [of "bitlen n" "- bitlen n"] pow2_pos [of "bitlen n"]
    by (simp add: pow2_powi power_int_minus field_simps)
  have "pow2 (bitlen n - 1) = of_int (2 ^ nat (bitlen n - 1))"
    using b1 by (intro pow2_nat) simp
  also have "\<dots> \<le> of_int n"
    using b(1) by (simp only: of_int_le_iff)
  also have "\<dots> < 1 / a" by (rule n(2))
  finally have "pow2 (bitlen n - 1) * a < 1"
    using assms by (simp add: field_simps)
  then have hi: "a < pow2 (- bitlen n + 1)"
    using pow2_pos [of "bitlen n - 1"]
    by (simp add: pow2_powi power_int_minus power_int_diff field_simps)
  show ?thesis
    using False lo hi by (simp add: ilog2_def n_def)
qed

lemma round_even_nonneg: "0 \<le> q \<Longrightarrow> 0 \<le> round_even q"
  by (auto simp add: round_even_def Let_def)

lemma round_even_pos:
  assumes "1 / 2 < q"
  shows "1 \<le> round_even q"
proof -
  note that = assms
  show ?thesis
  proof (cases "1 \<le> q")
    case True
    then have "1 \<le> \<lfloor>q\<rfloor>" by simp
    then show ?thesis by (auto simp add: round_even_def Let_def)
  next
    case False
    with that have "\<lfloor>q\<rfloor> = 0" by (simp add: floor_eq_iff)
    with that show ?thesis by (simp add: round_even_def Let_def)
  qed
qed

lemma on_grid_0 [simp]: "on_grid 0"
  by (auto simp: on_grid_def intro: exI [of _ 0])

lemma on_grid_scaled:
  assumes "- 1074 \<le> k"
  shows "on_grid (of_int m * pow2 k)"
proof -
  have "pow2 k = pow2 (k + 1074) * pow2 (- 1074)"
    using pow2_add [of "k + 1074" "- 1074"] by simp
  also have "pow2 (k + 1074) = of_int (2 ^ nat (k + 1074))"
    using assms by (intro pow2_nat) simp
  finally have "of_int m * pow2 k = of_int (m * 2 ^ nat (k + 1074)) * pow2 (- 1074)"
    by simp
  then show ?thesis
    unfolding on_grid_def by blast
qed

lemma on_grid_of_int [simp]: "on_grid (of_int n)"
  using on_grid_scaled [of 0 n] by (simp add: pow2_def)

lemma on_grid_of_nat [simp]: "on_grid (of_nat n)"
  using on_grid_of_int [of "int n"] by simp

lemma on_grid_1 [simp]: "on_grid 1"
  using on_grid_of_int [of 1] by simp

lemma on_grid_minus: "on_grid a \<Longrightarrow> on_grid (- a)"
  unfolding on_grid_def by (metis mult_minus_left of_int_minus)

lemma on_grid_add: "on_grid a \<Longrightarrow> on_grid b \<Longrightarrow> on_grid (a + b)"
  unfolding on_grid_def by (metis distrib_right of_int_add)

lemma on_grid_diff: "on_grid a \<Longrightarrow> on_grid b \<Longrightarrow> on_grid (a - b)"
  using on_grid_add [of a "- b"] on_grid_minus [of b] by simp

lemma on_grid_pos:
  assumes "on_grid a" and "0 < a"
  shows "pow2 (- 1074) \<le> a"
proof -
  obtain m :: int where m: "a = of_int m * pow2 (- 1074)"
    using assms(1) unfolding on_grid_def by blast
  with assms(2) have "0 < (of_int m :: rat)"
    by (metis pow2_pos zero_less_mult_pos2)
  then have "1 \<le> (of_int m :: rat)"
    by simp
  then show ?thesis
    unfolding m using pow2_pos [of "- 1074"] by (metis mult_le_cancel_right1 not_less_iff_gr_or_eq not_le)
qed

lemma ulp_exponent: "0 < a \<Longrightarrow> \<exists>k. - 1074 \<le> k \<and> ulp a = pow2 k \<and> (pow2 (k + 52) \<le> a \<or> k = - 1074)"
  using ilog2_bounds [of a] by (auto simp add: ulp_def max_def intro!: exI [of _ "max (ilog2 a) (- 1022) - 52"])

lemma round_to_grid: "0 < a \<Longrightarrow> on_grid (round_to (ulp a) a)"
  using ulp_exponent [of a] by (auto simp add: round_to_def on_grid_scaled)

lemma round_to_nonneg:
  assumes "0 < a"
  shows "0 \<le> round_to (ulp a) a"
proof -
  obtain k where k: "ulp a = pow2 k"
    using ulp_exponent [OF assms] by blast
  have "0 \<le> a / pow2 k"
    using assms pow2_pos [of k] by (intro divide_nonneg_pos) simp_all
  then have "0 \<le> round_even (a / pow2 k)"
    by (rule round_even_nonneg)
  then have "0 \<le> (of_int (round_even (a / pow2 k)) :: rat) * pow2 k"
    by (intro mult_nonneg_nonneg) simp_all
  then show ?thesis
    by (simp add: round_to_def k)
qed

lemma round_to_pos:
  assumes "0 < a" and "on_grid a"
  shows "0 < round_to (ulp a) a"
proof -
  obtain k where k: "- 1074 \<le> k" "ulp a = pow2 k" "pow2 (k + 52) \<le> a \<or> k = - 1074"
    using ulp_exponent [OF assms(1)] by blast
  have "pow2 k \<le> a"
  proof (cases "k = - 1074")
    case True
    then show ?thesis using on_grid_pos [OF assms(2,1)] by simp
  next
    case False
    with k(3) have "pow2 (k + 52) \<le> a" by simp
    moreover have "pow2 k \<le> pow2 (k + 52)" by (rule pow2_mono) simp
    ultimately show ?thesis by simp
  qed
  then have "1 \<le> a / pow2 k"
    by (simp add: field_simps)
  then have "1 / 2 < a / pow2 k"
    by linarith
  then have "1 \<le> round_even (a / pow2 k)"
    by (rule round_even_pos)
  then have "0 < (of_int (round_even (a / pow2 k)) :: rat)"
    by simp
  then have "0 < (of_int (round_even (a / pow2 k)) :: rat) * pow2 k"
    by (intro mult_pos_pos) simp_all
  then show ?thesis
    by (simp add: round_to_def k(2))
qed

lemma round_double_not_NaN [simp]: "round_double x \<noteq> NaN"
  by (simp add: round_double_def of_magnitude_def)

lemma is_double_round [simp]: "is_double (round_double x)"
proof (cases "x = 0")
  case True
  then show ?thesis by (simp add: round_double_def)
next
  case False
  then have "on_grid (round_to (ulp \<bar>x\<bar>) \<bar>x\<bar>)"
    by (intro round_to_grid) simp
  then show ?thesis
    using False by (cases "0 < x") (simp_all add: round_double_def of_magnitude_def on_grid_minus)
qed

lemma round_double_nonneg: "0 \<le> x \<Longrightarrow> nle (Fin 0) (round_double x)"
  using round_to_nonneg [of "\<bar>x\<bar>"] by (simp add: round_double_def of_magnitude_def)

lemma round_double_nonpos: "x \<le> 0 \<Longrightarrow> nle (round_double x) (Fin 0)"
  using round_to_nonneg [of "\<bar>x\<bar>"] by (simp add: round_double_def of_magnitude_def)

lemma round_double_pos: "on_grid x \<Longrightarrow> 0 < x \<Longrightarrow> nlt (Fin 0) (round_double x)"
  using round_to_pos [of "\<bar>x\<bar>"] by (simp add: round_double_def of_magnitude_def)

lemma is_double_nadd [simp]: "is_double (nadd x y)"
  by (cases x; cases y) simp_all

lemma is_double_nsub [simp]: "is_double (nsub x y)"
  by (simp add: nsub_def)

lemma is_double_ndiv [simp]: "is_double (ndiv x y)"
  by (cases x; cases y) simp_all

lemma is_double_nsum [simp]: "is_double (nsum xs)"
  by (induction xs rule: rev_induct) (simp_all add: nsum_def)

lemma nle_nsub_one: "is_double c \<Longrightarrow> nle (nsub (Fin 1) c) (Fin 0) = nle (Fin 1) c"
proof (cases c)
  case (Fin q)
  assume "is_double c"
  with Fin have g: "on_grid (1 - q)" by (simp add: on_grid_diff)
  show ?thesis
  proof (cases "1 \<le> q")
    case True
    then show ?thesis
      using round_double_nonpos [of "1 - q"] Fin by (simp add: nsub_def)
  next
    case False
    then have "nlt (Fin 0) (round_double (1 - q))"
      using g by (intro round_double_pos) simp_all
    then have "\<not> nle (round_double (1 - q)) (Fin 0)"
      by (cases "round_double (1 - q)") auto
    then show ?thesis
      using False Fin by (simp add: nsub_def)
  qed
qed (simp_all add: nsub_def)




section \<open>The basic rule\<close>

text \<open>
  C1 (amended). For every market, let \<open>yes\<close> be \<open>parseFloat\<close> of the first outcome price
  if that is truthy, else of \<open>market.yes_price\<close> if that is truthy, else 0.5, and \<open>no\<close>
  likewise from the second outcome price and \<open>market.no_price\<close>. The sum and the
  difference are those of doubles, each rounded to the nearest double. detectBasicArb
  returns no signal if and only if \<open>yes + no >= 1\<close>; otherwise it returns an opportunity
  whose edge is \<open>1 - (yes + no)\<close>, whose cost is \<open>yes + no\<close>, whose payout is 1 and whose
  prices are \<open>[yes, no]\<close>.
\<close>

theorem detectBasicArb_signal:
  fixes m :: market
  defines "yes \<equiv> parseFloat (jor (jor (index (outcomePrices m) 0) (yes_price m)) (JNum (Fin (1 / 2))))"
  defines "no \<equiv> parseFloat (jor (jor (index (outcomePrices m) 1) (no_price m)) (JNum (Fin (1 / 2))))"
  shows "(detectBasicArb m = None \<longleftrightarrow> nle (Fin 1) (nadd yes no)) \<and>
         (\<not> nle (Fin 1) (nadd yes no) \<longrightarrow>
            (\<exists>a. detectBasicArb m = Some a \<and> edge a = nsub (Fin 1) (nadd yes no) \<and>
                 cost a = nadd yes no \<and> payout a = Fin 1 \<and> prices a = [yes, no]))"
  unfolding yes_def no_def
  by (simp add: detectBasicArb_def yesPrice_def noPrice_def half_def Let_def nle_nsub_one)

text \<open>
  The rule on a market quoted at \<open>'0.15'\<close> and \<open>'0.82'\<close>: the prices are the doubles
  nearest to 0.15 and 0.82, their sum is the double 0.97 and the edge is
  0.030000000000000027. Quoted at \<open>'0.55'\<close> and \<open>'0.45'\<close> the sum is 1 and there is no
  signal; quoted at \<open>'0.5'\<close> and \<open>'0.49999999999999999'\<close> the second price already
  parses to 0.5, and there is no signal either.
\<close>

theorem detectBasicArb_signal_witness:
  "map_option (\<lambda>a. (prices a, cost a, edge a))
     (detectBasicArb (mock_market ''Q'' [''0.15'', ''0.82''] ''1500000'' [''Yes'', ''No'']))
     = Some ([Fin (5404319552844595 / 36028797018963968), Fin (7385903388887613 / 9007199254740992)],
             Fin (4368491638549381 / 4503599627370496),
             Fin (135107988821115 / 4503599627370496)) \<and>
   detectBasicArb (price_market (JArr [JStr ''0.55'', JStr ''0.45'']) JUndefined JUndefined) = None \<and>
   detectBasicArb (price_market (JArr [JStr ''0.5'', JStr ''0.49999999999999999'']) JUndefined JUndefined)
     = None"
  using detectBasicArb_signal [of "mock_market ''Q'' [''0.15'', ''0.82''] ''1500000'' [''Yes'', ''No'']"]
        detectBasicArb_signal [of "price_market (JArr [JStr ''0.55'', JStr ''0.45'']) JUndefined JUndefined"]
        detectBasicArb_signal [of "price_market (JArr [JStr ''0.5'', JStr ''0.49999999999999999'']) JUndefined JUndefined"]
  by (simp add: basic_defs parse_defs)

text \<open>
  C1 as stated fails. A market that quotes the number 0 for yes and 0.6 for no has
  \<open>yes + no = 0.6 < 1\<close> in the specification's reading, yet the rule gives no signal
  (the 0 is replaced by 0.5). A market without outcome prices but with
  \<open>yes_price = 0.2\<close> and \<open>no_price = 0.3\<close> has \<open>yes + no = 1\<close> in the specification's
  reading, yet the rule signals.
\<close>

theorem detectBasicArb_spec_counterexample:
  "detectBasicArb (price_market (JArr [JNum (Fin 0), JNum (round_double (3 / 5))]) JUndefined JUndefined) = None \<and>
   \<not> nle (Fin 1) (nadd (spec_price (price_market (JArr [JNum (Fin 0), JNum (round_double (3 / 5))]) JUndefined JUndefined) 0)
                        (spec_price (price_market (JArr [JNum (Fin 0), JNum (round_double (3 / 5))]) JUndefined JUndefined) 1)) \<and>
   detectBasicArb (price_market JUndefined (JNum (round_double (1 / 5))) (JNum (round_double (3 / 10)))) \<noteq> None \<and>
   nle (Fin 1) (nadd (spec_price (price_market JUndefined (JNum (round_double (1 / 5))) (JNum (round_double (3 / 10)))) 0)
                      (spec_price (price_market JUndefined (JNum (round_double (1 / 5))) (JNum (round_double (3 / 10)))) 1))"
  by (simp add: basic_defs spec_price_def dbl_defs)


lemmas corr_defs = detectCorrelatedArb_def noPrice_def jor_def half_def nsub_def nsum_def
  market_volume_def price_market_def mock_market_def lose_group_def zero_group_def Let_def

section \<open>The correlated rule\<close>







section \<open>The mutually exclusive rule\<close>




section \<open>Defaults for missing and falsy prices\<close>







text \<open>
  C10 (amended). When an outcome price is present but falsy (the number 0, the empty
  string, \<open>null\<close>, \<open>false\<close>, NaN), detectBasicArb treats it exactly as if it were absent:
  it uses \<open>market.yes_price\<close> (for the first price; \<open>market.no_price\<close> for the second)
  when that is truthy and the default 0.5 otherwise. The correlated rule coalesces each
  lose price in the same way. The watcher's own rules have no legacy field and use 0.5
  for a falsy price.
\<close>

theorem falsy_price_as_absent:
  assumes "outcomePrices m = JArr ps" and "i < length ps" and "\<not> truthy (ps ! i)"
  defines "m' \<equiv> m\<lparr>outcomePrices := JArr (ps[i := JUndefined])\<rparr>"
  shows "yesPrice m = yesPrice m' \<and> noPrice m = noPrice m' \<and> watch_price m i = watch_price m' i \<and>
         map_option (\<lambda>a. (prices a, edge a, cost a)) (detectBasicArb m)
           = map_option (\<lambda>a. (prices a, edge a, cost a)) (detectBasicArb m') \<and>
         (i = 0 \<longrightarrow> yesPrice m = parseFloat (jor (yes_price m) (JNum (Fin (1 / 2)))) \<and>
                    (\<not> truthy (yes_price m) \<longrightarrow> yesPrice m = Fin (1 / 2))) \<and>
         (i = 1 \<longrightarrow> noPrice m = parseFloat (jor (no_price m) (JNum (Fin (1 / 2)))) \<and>
                    (\<not> truthy (no_price m) \<longrightarrow> noPrice m = Fin (1 / 2))) \<and>
         watch_price m i = Fin (1 / 2) \<and>
         (\<forall>a. detectBasicArb m = Some a \<longrightarrow> prices a = [yesPrice m, noPrice m]) \<and>
         (\<forall>g a. detectCorrelatedArb g = Some a \<longrightarrow> prices a = map noPrice (markets g))"
proof -
  have idx: "\<And>j. jor (index (JArr (ps[i := JUndefined])) j) v = jor (index (JArr ps) j) v" for v
    using assms(2,3) by (auto simp add: jor_def nth_list_update)
  have y: "yesPrice m = yesPrice m'" and n: "noPrice m = noPrice m'"
    and w: "watch_price m i = watch_price m' i"
    using assms(1) idx by (simp_all add: yesPrice_def noPrice_def watch_price_def m'_def del: index.simps)
  have d: "map_option (\<lambda>a. (prices a, edge a, cost a)) (detectBasicArb m)
           = map_option (\<lambda>a. (prices a, edge a, cost a)) (detectBasicArb m')"
    by (simp add: detectBasicArb_def Let_def y n)
  have f: "\<not> truthy (index (outcomePrices m) i)"
    using assms(1-3) by simp
  show ?thesis
    using y n w d f
    by (auto simp add: yesPrice_def noPrice_def watch_price_def jor_def half_def
          detectBasicArb_def detectCorrelatedArb_def Let_def split: if_splits)
qed

text \<open>A market quoting the number 0 for yes and \<open>'0.3'\<close> for no is evaluated with
  yes = 0.5 and no = the double nearest to 0.3; the empty string as the second price
  is evaluated as 0.5 as well.\<close>

theorem falsy_price_as_absent_witness:
  "yesPrice (price_market (JArr [JNum (Fin 0), JStr ''0.3'']) JUndefined JUndefined) = Fin (1 / 2) \<and>
   map_option prices (detectBasicArb (price_market (JArr [JNum (Fin 0), JStr ''0.3'']) JUndefined JUndefined))
     = Some [Fin (1 / 2), Fin (5404319552844595 / 18014398509481984)] \<and>
   noPrice (price_market (JArr [JStr ''0.3'', JStr '''']) JUndefined JUndefined) = Fin (1 / 2)"
  using falsy_price_as_absent [of "price_market (JArr [JNum (Fin 0), JStr ''0.3'']) JUndefined JUndefined"
          "[JNum (Fin 0), JStr ''0.3'']" 0]
        falsy_price_as_absent [of "price_market (JArr [JStr ''0.3'', JStr '''']) JUndefined JUndefined"
          "[JStr ''0.3'', JStr '''']" 1]
  by (auto simp add: basic_defs parse_defs)

text \<open>
  C10 as stated fails. A market quoting the number 0 for yes, with the legacy field
  \<open>yes_price = 0.2\<close>, is evaluated with yes = 0.2, not with 0.5.
\<close>

theorem falsy_price_legacy_counterexample:
  "yesPrice (price_market (JArr [JNum (Fin 0), JNum (round_double (3 / 10))]) (JNum (round_double (1 / 5))) JUndefined)
     = round_double (1 / 5) \<and>
   yesPrice (price_market (JArr [JNum (Fin 0), JNum (round_double (3 / 10))]) (JNum (round_double (1 / 5))) JUndefined)
     \<noteq> Fin (1 / 2) \<and>
   map_option prices
     (detectBasicArb (price_market (JArr [JNum (Fin 0), JNum (round_double (3 / 10))]) (JNum (round_double (1 / 5))) JUndefined))
     = Some [round_double (1 / 5), round_double (3 / 10)]"
  by (simp add: basic_defs dbl_defs)

section \<open>The scan pipeline\<close>







lemma admit_edge: "a \<in> set (admit min_edge r) \<Longrightarrow> nle min_edge (edge a) \<and> r = Some a"
  by (auto simp: admit_def split: option.splits if_splits)







lemmas rx_defs = extractBaseEvent_def trim_def match_spaces_def match_yesno_def match_ordinal_def
  ord_tail_def match_date_def spaces_then_def date_token_def months_def wb_end_def wb_def lower_def
  is_word_def is_digit_def is_space_def

lemmas group_defs = findRelatedMarkets_def question_text_def object_prototype_keys_def entries_def
  is_array_index_def jor_def

lemmas scan_defs = scan_def scan_opportunities_def admit_def scanner_MIN_EDGE_def multiOutcome_def
  sort_opps_def report_raises_def


text \<open>
  C8 as stated fails. A group of two markets whose lose prices are \<open>'x'\<close> and \<open>'0.3'\<close> has
  the cost NaN and the edge NaN, which is not \<open>> 0\<close>, and the correlated rule returns
  an opportunity for it.
\<close>

theorem nan_edge_counterexample:
  "map_option (\<lambda>a. (cost a, edge a)) (detectCorrelatedArb (lose_group [''x'', ''0.3''])) = Some (NaN, NaN) \<and>
   \<not> nlt (Fin 0) NaN"
  by (simp add: corr_defs parse_defs)

section \<open>Detection does not depend on volume\<close>


lemma strip_fields [simp]:
  "question (strip_volume m) = question m" "title (strip_volume m) = title m"
  "outcomes (strip_volume m) = outcomes m" "outcomePrices (strip_volume m) = outcomePrices m"
  "yes_price (strip_volume m) = yes_price m" "no_price (strip_volume m) = no_price m"
  "market_id (strip_volume m) = market_id m"
  by (simp_all add: strip_volume_def)

lemma strip_prices [simp]: "yesPrice (strip_volume m) = yesPrice m" "noPrice (strip_volume m) = noPrice m"
  by (simp_all add: yesPrice_def noPrice_def)

lemma basic_strip: "map_option signal (detectBasicArb (strip_volume m)) = map_option signal (detectBasicArb m)"
  by (simp add: detectBasicArb_def Let_def signal_def market_name_def)

lemma excl_strip:
  "map_option signal (detectMutuallyExclusiveArb P (strip_volume m)) = map_option signal (detectMutuallyExclusiveArb P m)"
  by (simp add: detectMutuallyExclusiveArb_def Let_def signal_def market_name_def split: option.splits)

lemma corr_strip:
  "map_option signal (detectCorrelatedArb \<lparr>event = k, markets = map strip_volume ms\<rparr>)
     = map_option signal (detectCorrelatedArb \<lparr>event = k, markets = ms\<rparr>)"
  by (simp add: detectCorrelatedArb_def Let_def signal_def comp_def)

lemma admit_signal:
  "map_option signal r = map_option signal r' \<Longrightarrow> map signal (admit e r) = map signal (admit e r')"
  by (cases r; cases r') (auto simp: admit_def signal_def)

lemma insort_signal:
  "signal a = signal b \<Longrightarrow> map signal xs = map signal ys \<Longrightarrow>
   map signal (insort_opp a xs) = map signal (insort_opp b ys)"
proof (induction xs arbitrary: ys)
  case Nil
  then show ?case by simp
next
  case (Cons x xs)
  then obtain y ys' where ys: "ys = y # ys'" "signal x = signal y" "map signal xs = map signal ys'"
    by (cases ys) auto
  have e: "edge a = edge b" "edge x = edge y"
    using Cons.prems(1) ys(2) by (simp_all add: signal_def)
  show ?case
    using Cons.IH [OF Cons.prems(1) ys(3)] ys e Cons.prems(1) by simp
qed

lemma sort_signal:
  "map signal xs = map signal ys \<Longrightarrow> map signal (sort_opps xs) = map signal (sort_opps ys)"
proof (induction xs arbitrary: ys)
  case Nil
  then show ?case by (simp add: sort_opps_def)
next
  case (Cons x xs)
  then obtain y ys' where ys: "ys = y # ys'" "signal x = signal y" "map signal xs = map signal ys'"
    by (cases ys) auto
  show ?case
    using insort_signal [OF ys(2) Cons.IH [OF ys(3)]] ys(1) by (simp add: sort_opps_def)
qed


lemma push_strip: "push (map (\<lambda>kv. (fst kv, map strip_volume (snd kv))) g) k (strip_volume m)
   = map (\<lambda>kv. (fst kv, map strip_volume (snd kv))) (push g k m)"
  by (induction g) auto

lemma question_text_strip: "question_text (strip_volume m) = question_text m"
  by (simp add: question_text_def)

lemma bucket_strip:
  "bucket (map (\<lambda>kv. (fst kv, map strip_volume (snd kv))) g) (map strip_volume ms)
     = map_sum (\<lambda>e. e) (map (\<lambda>kv. (fst kv, map strip_volume (snd kv)))) (bucket g ms)"
proof (induction ms arbitrary: g)
  case Nil
  then show ?case by simp
next
  case (Cons m ms)
  show ?case
    using Cons.IH [of "push g (extractBaseEvent q) m" for q]
    by (auto simp add: question_text_strip push_strip Let_def split: sum.splits)
qed

lemma insort_key_map:
  "insort_key f (h x) (map h xs) = map h (insort_key (\<lambda>a. f (h a)) x xs)"
  by (induction xs) auto

lemma sort_key_map: "sort_key f (map h xs) = map h (sort_key (\<lambda>a. f (h a)) xs)"
  by (induction xs) (auto simp: insort_key_map)

lemma entries_strip:
  "entries (map (\<lambda>kv. (fst kv, map strip_volume (snd kv))) g)
     = map (\<lambda>kv. (fst kv, map strip_volume (snd kv))) (entries g)"
  by (simp add: entries_def filter_map sort_key_map comp_def)

lemma findRelatedMarkets_strip:
  "findRelatedMarkets (map strip_volume ms)
     = map_sum (\<lambda>e. e) (map (\<lambda>g. \<lparr>event = event g, markets = map strip_volume (markets g)\<rparr>)) (findRelatedMarkets ms)"
  using bucket_strip [of "[]" ms]
  by (auto simp add: findRelatedMarkets_def entries_strip filter_map comp_def split: sum.splits)

lemma concat_admit_strip:
  assumes "\<And>x. map_option signal (d (s x)) = map_option signal (d x)"
  shows "map signal (concat (map (\<lambda>x. admit e (d (s x))) xs))
       = map signal (concat (map (\<lambda>x. admit e (d x)) xs))"
  by (induction xs) (auto simp: admit_signal [OF assms])

lemma corr_strip':
  "map_option signal (detectCorrelatedArb \<lparr>event = event g, markets = map strip_volume (markets g)\<rparr>)
     = map_option signal (detectCorrelatedArb g)"
  using corr_strip [of "event g" "markets g"] by (cases g) simp

lemma multiOutcome_strip: "multiOutcome (strip_volume m) = multiOutcome m"
  by (simp add: multiOutcome_def)

lemma scan_strip:
  "map_sum (\<lambda>e. e) (map signal) (scan_opportunities P (map strip_volume ms))
     = map_sum (\<lambda>e. e) (map signal) (scan_opportunities P ms)"
proof (cases "findRelatedMarkets ms")
  case (Inl e)
  then show ?thesis
    by (simp add: scan_opportunities_def findRelatedMarkets_strip)
next
  case (Inr gs)
  have f: "filter multiOutcome (map strip_volume ms) = map strip_volume (filter multiOutcome ms)"
    by (simp add: filter_map comp_def multiOutcome_strip)
  have b: "map signal (concat (map (\<lambda>m. admit scanner_MIN_EDGE (detectBasicArb (strip_volume m))) ms))
         = map signal (concat (map (\<lambda>m. admit scanner_MIN_EDGE (detectBasicArb m)) ms))"
    by (rule concat_admit_strip) (rule basic_strip)
  have c: "map signal (concat (map (\<lambda>g. admit scanner_MIN_EDGE
               (detectCorrelatedArb \<lparr>event = event g, markets = map strip_volume (markets g)\<rparr>)) gs))
         = map signal (concat (map (\<lambda>g. admit scanner_MIN_EDGE (detectCorrelatedArb g)) gs))"
    by (rule concat_admit_strip [where s = "\<lambda>g. \<lparr>event = event g, markets = map strip_volume (markets g)\<rparr>"])
       (rule corr_strip')
  have x: "map signal (concat (map (\<lambda>m. admit scanner_MIN_EDGE (detectMutuallyExclusiveArb P (strip_volume m)))
               (filter multiOutcome ms)))
         = map signal (concat (map (\<lambda>m. admit scanner_MIN_EDGE (detectMutuallyExclusiveArb P m))
               (filter multiOutcome ms)))"
    by (rule concat_admit_strip) (rule excl_strip)
  have "map signal (sort_opps
          (concat (map (\<lambda>m. admit scanner_MIN_EDGE (detectBasicArb (strip_volume m))) ms) @
           concat (map (\<lambda>g. admit scanner_MIN_EDGE
               (detectCorrelatedArb \<lparr>event = event g, markets = map strip_volume (markets g)\<rparr>)) gs) @
           concat (map (\<lambda>m. admit scanner_MIN_EDGE (detectMutuallyExclusiveArb P (strip_volume m)))
               (filter multiOutcome ms))))
      = map signal (sort_opps
          (concat (map (\<lambda>m. admit scanner_MIN_EDGE (detectBasicArb m)) ms) @
           concat (map (\<lambda>g. admit scanner_MIN_EDGE (detectCorrelatedArb g)) gs) @
           concat (map (\<lambda>m. admit scanner_MIN_EDGE (detectMutuallyExclusiveArb P m))
               (filter multiOutcome ms))))"
    by (rule sort_signal) (simp add: b c x)
  then show ?thesis
    using Inr by (simp add: scan_opportunities_def findRelatedMarkets_strip f comp_def)
qed


text \<open>
  C9. No detection rule reads a volume to decide: MIN_VOLUME is declared and never used.
  Two markets that differ only in their volume fields get the same signal (type, name,
  edge, cost, payout, prices, market count) from the basic and the mutually exclusive
  rule, two groups that differ only in the volumes of their markets get the same signal
  from the correlated rule, and two market lists that differ only in volumes are grouped
  alike and make the scan produce the same signals in the same order. The volume only
  shows in the aggregate volume of an opportunity (and in the market records it refers
  to).
\<close>

theorem volume_independent:
  assumes "map strip_volume ms = map strip_volume ms'"
  shows "map_sum (\<lambda>e. e) (map signal) (scan_opportunities JSON_parse ms)
           = map_sum (\<lambda>e. e) (map signal) (scan_opportunities JSON_parse ms') \<and>
         map_sum (\<lambda>e. e) (map (\<lambda>g. (event g, map strip_volume (markets g)))) (findRelatedMarkets ms)
           = map_sum (\<lambda>e. e) (map (\<lambda>g. (event g, map strip_volume (markets g)))) (findRelatedMarkets ms') \<and>
         map_option signal (detectCorrelatedArb \<lparr>event = k, markets = ms\<rparr>)
           = map_option signal (detectCorrelatedArb \<lparr>event = k, markets = ms'\<rparr>) \<and>
         (\<forall>i < length ms.
            map_option signal (detectBasicArb (ms ! i)) = map_option signal (detectBasicArb (ms' ! i)) \<and>
            map_option signal (detectMutuallyExclusiveArb JSON_parse (ms ! i))
              = map_option signal (detectMutuallyExclusiveArb JSON_parse (ms' ! i))) \<and>
         (\<forall>m a. detectBasicArb m = Some a \<longrightarrow> totalVolume a = market_volume m)"
proof -
  have scan: "map_sum (\<lambda>e. e) (map signal) (scan_opportunities JSON_parse ms)
           = map_sum (\<lambda>e. e) (map signal) (scan_opportunities JSON_parse ms')"
    using scan_strip [of JSON_parse ms] scan_strip [of JSON_parse ms'] assms by simp
  have "map_sum (\<lambda>e. e) (map (\<lambda>g. (event g, map strip_volume (markets g)))) (findRelatedMarkets zs)
      = map_sum (\<lambda>e. e) (map (\<lambda>g. (event g, markets g))) (findRelatedMarkets (map strip_volume zs))" for zs
    by (cases "findRelatedMarkets zs") (simp_all add: findRelatedMarkets_strip comp_def)
  then have grp: "map_sum (\<lambda>e. e) (map (\<lambda>g. (event g, map strip_volume (markets g)))) (findRelatedMarkets ms)
           = map_sum (\<lambda>e. e) (map (\<lambda>g. (event g, map strip_volume (markets g)))) (findRelatedMarkets ms')"
    using assms by simp
  have corr: "map_option signal (detectCorrelatedArb \<lparr>event = k, markets = ms\<rparr>)
           = map_option signal (detectCorrelatedArb \<lparr>event = k, markets = ms'\<rparr>)"
    using corr_strip [of k ms] corr_strip [of k ms'] assms by simp
  have len: "length ms = length ms'"
    using assms by (rule map_eq_imp_length_eq)
  have each: "strip_volume (ms ! i) = strip_volume (ms' ! i)" if "i < length ms" for i
    using that len assms by (metis nth_map)
  have one: "map_option signal (detectBasicArb (ms ! i)) = map_option signal (detectBasicArb (ms' ! i)) \<and>
            map_option signal (detectMutuallyExclusiveArb JSON_parse (ms ! i))
              = map_option signal (detectMutuallyExclusiveArb JSON_parse (ms' ! i))" if "i < length ms" for i
    using each [OF that] basic_strip [of "ms ! i"] basic_strip [of "ms' ! i"]
      excl_strip [of JSON_parse "ms ! i"] excl_strip [of JSON_parse "ms' ! i"] by simp
  have vol: "\<forall>m a. detectBasicArb m = Some a \<longrightarrow> totalVolume a = market_volume m"
    by (auto simp: detectBasicArb_def Let_def split: if_splits)
  show ?thesis
    using scan grp corr one vol by blast
qed

text \<open>The same market with volume 5 and with volume 900000: the scan gives the edge
  0.030000000000000027 for both, with the aggregate volumes 5 and 900000.\<close>

theorem volume_independent_witness:
  "map strip_volume [(price_market (JArr [JStr ''0.15'', JStr ''0.82'']) JUndefined JUndefined)\<lparr>volume := JStr ''5''\<rparr>]
     = map strip_volume [(price_market (JArr [JStr ''0.15'', JStr ''0.82'']) JUndefined JUndefined)\<lparr>volume := JStr ''900000''\<rparr>] \<and>
   map_sum (\<lambda>e. e) (map (\<lambda>a. (edge a, totalVolume a)))
     (scan_opportunities no_decoder
        [(price_market (JArr [JStr ''0.15'', JStr ''0.82'']) JUndefined JUndefined)\<lparr>volume := JStr ''5''\<rparr>])
     = Inr [(Fin (135107988821115 / 4503599627370496), Fin 5)] \<and>
   map_sum (\<lambda>e. e) (map (\<lambda>a. (edge a, totalVolume a)))
     (scan_opportunities no_decoder
        [(price_market (JArr [JStr ''0.15'', JStr ''0.82'']) JUndefined JUndefined)\<lparr>volume := JStr ''900000''\<rparr>])
     = Inr [(Fin (135107988821115 / 4503599627370496), Fin 900000)]"
  using volume_independent [of
          "[(price_market (JArr [JStr ''0.15'', JStr ''0.82'']) JUndefined JUndefined)\<lparr>volume := JStr ''5''\<rparr>]"
          "[(price_market (JArr [JStr ''0.15'', JStr ''0.82'']) JUndefined JUndefined)\<lparr>volume := JStr ''900000''\<rparr>]"
          no_decoder "''E''"]
  by (simp add: strip_volume_def scan_defs basic_defs group_defs rx_defs parse_defs)

section \<open>The tracker of the watcher\<close>

lemma report_props:
  "report seen opps = (e, sent, seen') \<Longrightarrow>
     set (map wid sent) \<inter> set seen = {} \<and> distinct (map wid sent) \<and>
     (distinct seen \<longrightarrow> distinct seen') \<and>
     (e = None \<longrightarrow> seen' = seen @ map wid sent \<and> set (map wid sent) = wid ` set opps - set seen)"
proof (induction opps arbitrary: seen e sent seen')
  case Nil
  then show ?case by auto
next
  case (Cons opp opps)
  show ?case
  proof (cases "wid opp \<in> set seen")
    case True
    with Cons.prems have "report seen opps = (e, sent, seen')" by simp
    from Cons.IH [OF this] True show ?thesis by auto
  next
    case False
    show ?thesis
    proof (cases "\<exists>s. wname opp = JStr s")
      case True
      then obtain s where s: "wname opp = JStr s" by blast
      obtain e0 sent0 seen0 where r: "report (seen @ [wid opp]) opps = (e0, sent0, seen0)"
        by (cases "report (seen @ [wid opp]) opps") auto
      with Cons.prems False s have eq: "e = e0" "sent = opp # sent0" "seen' = seen0"
        by auto
      from Cons.IH [OF r] False show ?thesis
        unfolding eq by auto
    next
      case False
      with Cons.prems \<open>wid opp \<notin> set seen\<close> show ?thesis
        by (cases "wname opp") auto
    qed
  qed
qed


lemma distinct_count_one: "distinct xs \<Longrightarrow> x \<in> set xs \<Longrightarrow> count_list xs x = 1"
  by (induction xs) (auto simp: count_list_0_iff)

lemma bucket_questions:
  "bucket g ms = Inr g' \<Longrightarrow> m \<in> set ms \<Longrightarrow> \<exists>q. question_text m = Inr q"
  by (induction ms arbitrary: g) (auto simp: Let_def split: sum.splits if_splits)

lemma question_text_name:
  "question_text m = Inr q \<Longrightarrow> \<exists>s. jor (question m) (JStr ''Unknown'') = JStr s"
  by (cases "question m") (auto simp: question_text_def jor_def split: if_splits)

lemma watch_names:
  assumes "watch_opportunities num_str ms = Inr opps" and "opp \<in> set opps"
  shows "\<exists>s. wname opp = JStr s"
proof -
  obtain gs where gs: "findRelatedMarkets ms = Inr gs"
    and opps: "opps = concat (map (watch_basic num_str) ms) @ concat (map watch_correlated gs)"
    using assms(1) by (auto simp: watch_opportunities_def Let_def split: sum.splits)
  then obtain g' where "bucket [] ms = Inr g'"
    by (auto simp: findRelatedMarkets_def split: sum.splits)
  then have q: "\<forall>m\<in>set ms. \<exists>s. jor (question m) (JStr ''Unknown'') = JStr s"
    by (blast dest: bucket_questions question_text_name)
  from assms(2) opps consider m where "m \<in> set ms" "opp \<in> set (watch_basic num_str m)"
    | g where "opp \<in> set (watch_correlated g)"
    by auto
  then show ?thesis
  proof cases
    case 1
    with q show ?thesis
      by (auto simp: watch_basic_def Let_def split: if_splits)
  next
    case 2
    then show ?thesis
      by (auto simp: watch_correlated_def Let_def split: if_splits)
  qed
qed

lemma report_no_error:
  "\<forall>opp\<in>set opps. \<exists>s. wname opp = JStr s \<Longrightarrow> fst (report seen opps) = None"
proof (induction opps arbitrary: seen)
  case Nil
  then show ?case by simp
next
  case (Cons opp opps)
  then obtain s where s: "wname opp = JStr s" by auto
  have "fst (report (seen @ [wid opp]) opps) = None" "fst (report seen opps) = None"
    using Cons by auto
  then show ?case
    using s by (auto split: prod.splits)
qed

lemma watchCycle_ok:
  assumes "watch_opportunities num_str ms = Inr opps"
    and "watchCycle num_str seen (Some ms) = (e, sent, seen')"
  shows "e = None \<and> report seen opps = (None, sent, seen @ map wid sent) \<and>
         seen' = housekeeping (seen @ map wid sent)"
proof -
  obtain e0 sent0 seen0 where r: "report seen opps = (e0, sent0, seen0)"
    by (cases "report seen opps") auto
  have "fst (report seen opps) = None"
    using assms(1) by (intro report_no_error) (blast dest: watch_names)
  with r have e0: "e0 = None" by simp
  with report_props [OF r] have "seen0 = seen @ map wid sent0" by simp
  with assms r e0 show ?thesis
    by (auto simp: watchCycle_def)
qed


text \<open>
  C4. Take two consecutive watch cycles whose market data was fetched and grouped, the
  first starting from the Set \<open>seen\<close>. Neither cycle fails. A key that is in the Set
  when a cycle starts is not forwarded in that cycle; a key of the cycle's opportunities
  that is not in the Set is forwarded exactly once in that cycle. At the end of a cycle
  the Set is the old Set with the forwarded keys added, or empty when that exceeds 1000
  keys. For a key present in both cycles: when the first cycle did not clear the Set, the
  key is forwarded exactly once over the two cycles (not at all if it was in the Set
  from the start); when the first cycle cleared the Set, the second cycle starts from the
  empty Set and forwards the key once more. A Set of at most 1000 keys is still one
  after any cycle, also after one that failed.
\<close>

theorem tracker_forwards_once:
  assumes d: "distinct seen"
    and o1: "watch_opportunities num_str ms1 = Inr opps1"
    and o2: "watch_opportunities num_str ms2 = Inr opps2"
    and c1: "watchCycle num_str seen (Some ms1) = (e1, sent1, seen1)"
    and c2: "watchCycle num_str seen1 (Some ms2) = (e2, sent2, seen2)"
  shows "e1 = None \<and> e2 = None \<and>
     (\<forall>k\<in>set seen. k \<notin> wid ` set sent1) \<and>
     (\<forall>k\<in>set seen1. k \<notin> wid ` set sent2) \<and>
     (\<forall>k\<in>wid ` set opps1. k \<notin> set seen \<longrightarrow> count_list (map wid sent1) k = 1) \<and>
     (\<forall>k\<in>wid ` set opps2. k \<notin> set seen1 \<longrightarrow> count_list (map wid sent2) k = 1) \<and>
     seen1 = (if 1000 < length (seen @ map wid sent1) then [] else seen @ map wid sent1) \<and>
     distinct seen1 \<and>
     (\<forall>k\<in>wid ` set opps1 \<inter> wid ` set opps2.
        (length (seen @ map wid sent1) \<le> 1000 \<longrightarrow>
           count_list (map wid (sent1 @ sent2)) k = (if k \<in> set seen then 0 else 1)) \<and>
        (1000 < length (seen @ map wid sent1) \<longrightarrow>
           seen1 = [] \<and> count_list (map wid sent2) k = 1)) \<and>
     (\<forall>fetched e sent seen'. watchCycle num_str seen fetched = (e, sent, seen') \<and> length seen \<le> 1000 \<longrightarrow>
        distinct seen' \<and> length seen' \<le> 1000)"
proof -
  from watchCycle_ok [OF o1 c1]
  have e1: "e1 = None" and r1: "report seen opps1 = (None, sent1, seen @ map wid sent1)"
    and s1: "seen1 = housekeeping (seen @ map wid sent1)" by auto
  from watchCycle_ok [OF o2 c2]
  have e2: "e2 = None" and r2: "report seen1 opps2 = (None, sent2, seen1 @ map wid sent2)"
    and s2: "seen2 = housekeeping (seen1 @ map wid sent2)" by auto
  from report_props [OF r1] d
  have p1: "set (map wid sent1) \<inter> set seen = {}" "distinct (map wid sent1)"
    "distinct (seen @ map wid sent1)" "set (map wid sent1) = wid ` set opps1 - set seen"
    by auto
  have d1: "distinct seen1"
    using p1(3) by (simp add: s1 housekeeping_def)
  from report_props [OF r2] d1
  have p2: "set (map wid sent2) \<inter> set seen1 = {}" "distinct (map wid sent2)"
    "set (map wid sent2) = wid ` set opps2 - set seen1"
    by auto
  have a: "\<forall>k\<in>set seen. k \<notin> wid ` set sent1"
    using p1(1) by auto
  have b: "\<forall>k\<in>set seen1. k \<notin> wid ` set sent2"
    using p2(1) by auto
  have c: "\<forall>k\<in>wid ` set opps1. k \<notin> set seen \<longrightarrow> count_list (map wid sent1) k = 1"
  proof (intro ballI impI)
    fix k assume "k \<in> wid ` set opps1" "k \<notin> set seen"
    then have "k \<in> set (map wid sent1)" using p1(4) by auto
    then show "count_list (map wid sent1) k = 1"
      using p1(2) by (simp add: distinct_count_one)
  qed
  have c': "\<forall>k\<in>wid ` set opps2. k \<notin> set seen1 \<longrightarrow> count_list (map wid sent2) k = 1"
  proof (intro ballI impI)
    fix k assume "k \<in> wid ` set opps2" "k \<notin> set seen1"
    then have "k \<in> set (map wid sent2)" using p2(3) by auto
    then show "count_list (map wid sent2) k = 1"
      using p2(2) by (simp add: distinct_count_one)
  qed
  have h: "seen1 = (if 1000 < length (seen @ map wid sent1) then [] else seen @ map wid sent1)"
    by (simp add: s1 housekeeping_def)
  have both: "(length (seen @ map wid sent1) \<le> 1000 \<longrightarrow>
           count_list (map wid (sent1 @ sent2)) k = (if k \<in> set seen then 0 else 1)) \<and>
        (1000 < length (seen @ map wid sent1) \<longrightarrow>
           seen1 = [] \<and> count_list (map wid sent2) k = 1)"
    if k: "k \<in> wid ` set opps1 \<inter> wid ` set opps2" for k
  proof (intro conjI impI)
    assume le: "length (seen @ map wid sent1) \<le> 1000"
    then have s: "seen1 = seen @ map wid sent1" using h by simp
    show "count_list (map wid (sent1 @ sent2)) k = (if k \<in> set seen then 0 else 1)"
    proof (cases "k \<in> set seen")
      case True
      then have "k \<notin> set (map wid sent1)" "k \<notin> set (map wid sent2)"
        using p1(1) p2(1) s by auto
      then show ?thesis
        using True by (simp add: count_list_0_iff)
    next
      case False
      then have in1: "k \<in> set (map wid sent1)" using k p1(4) by auto
      then have "k \<in> set seen1" using s by simp
      then have "k \<notin> set (map wid sent2)" using p2(1) by auto
      then show ?thesis
        using False distinct_count_one [OF p1(2) in1] by (simp add: count_list_0_iff)
    qed
  next
    assume "1000 < length (seen @ map wid sent1)"
    then show "seen1 = []" using h by simp
  next
    assume "1000 < length (seen @ map wid sent1)"
    then have "seen1 = []" using h by simp
    then have "k \<in> set (map wid sent2)" using k p2(3) by auto
    then show "count_list (map wid sent2) k = 1"
      using p2(2) by (simp add: distinct_count_one)
  qed
  have inv: "distinct seen' \<and> length seen' \<le> 1000"
    if w: "watchCycle num_str seen fetched = (e, sent, seen')" and l: "length seen \<le> 1000"
    for fetched e sent seen'
  proof (cases fetched)
    case None
    with w d l show ?thesis by (simp add: watchCycle_def)
  next
    case (Some ms)
    show ?thesis
    proof (cases "watch_opportunities num_str ms")
      case (Inl x)
      with w d l Some show ?thesis by (simp add: watchCycle_def)
    next
      case (Inr opps)
      from watchCycle_ok [OF Inr w [unfolded Some]]
      have r: "report seen opps = (None, sent, seen @ map wid sent)"
        and s: "seen' = housekeeping (seen @ map wid sent)" by auto
      from report_props [OF r] d have "distinct (seen @ map wid sent)" by auto
      then show ?thesis by (simp add: s housekeeping_def)
    qed
  qed
  have both': "\<forall>k\<in>wid ` set opps1 \<inter> wid ` set opps2.
        (length (seen @ map wid sent1) \<le> 1000 \<longrightarrow>
           count_list (map wid (sent1 @ sent2)) k = (if k \<in> set seen then 0 else 1)) \<and>
        (1000 < length (seen @ map wid sent1) \<longrightarrow>
           seen1 = [] \<and> count_list (map wid sent2) k = 1)"
    using both by (intro ballI)
  have inv': "\<forall>fetched e sent seen'. watchCycle num_str seen fetched = (e, sent, seen') \<and> length seen \<le> 1000 \<longrightarrow>
        distinct seen' \<and> length seen' \<le> 1000"
    using inv by (intro allI impI) (elim conjE)
  show ?thesis
    by (intro conjI) (rule e1 e2 a b c c' h d1 both' inv')+
qed

text \<open>One market quoted at 0.15 and 0.82, watched twice from the empty Set: the first
  cycle forwards it, the second does not. Watched from a Set of 1000 other keys, it is
  forwarded and the Set is cleared, so that the next cycle is again the first one.\<close>

theorem tracker_forwards_once_witness:
  "watchCycle const_num_str [] (Some [price_market (JArr [JStr ''0.15'', JStr ''0.82'']) JUndefined JUndefined])
     = (None, [WBasic ''basic:Q'' (JStr ''Q'') (Fin (135107988821115 / 4503599627370496))
          (Fin (5404319552844595 / 36028797018963968)) (Fin (7385903388887613 / 9007199254740992))], [''basic:Q'']) \<and>
   watchCycle const_num_str [''basic:Q''] (Some [price_market (JArr [JStr ''0.15'', JStr ''0.82'']) JUndefined JUndefined])
     = (None, [], [''basic:Q'']) \<and>
   distinct thousand_keys \<and> length thousand_keys = 1000 \<and>
   watchCycle const_num_str thousand_keys (Some [price_market (JArr [JStr ''0.15'', JStr ''0.82'']) JUndefined JUndefined])
     = (None, [WBasic ''basic:Q'' (JStr ''Q'') (Fin (135107988821115 / 4503599627370496))
          (Fin (5404319552844595 / 36028797018963968)) (Fin (7385903388887613 / 9007199254740992))], [])"
proof -
  let ?m = "price_market (JArr [JStr ''0.15'', JStr ''0.82'']) JUndefined JUndefined"
  let ?w = "WBasic ''basic:Q'' (JStr ''Q'') (Fin (135107988821115 / 4503599627370496))
          (Fin (5404319552844595 / 36028797018963968)) (Fin (7385903388887613 / 9007199254740992))"
  have opps: "watch_opportunities const_num_str [?m] = Inr [?w]"
    by (simp add: watch_opportunities_def watch_basic_def watch_price_def watcher_MIN_EDGE_def
          watch_correlated_def price_market_def half_def nsub_def Let_def group_defs rx_defs parse_defs)
  have c1: "watchCycle const_num_str [] (Some [?m]) = (None, [?w], [''basic:Q''])"
    by (simp add: watchCycle_def opps housekeeping_def)
  have c2: "watchCycle const_num_str [''basic:Q''] (Some [?m]) = (None, [], [''basic:Q''])"
    by (simp add: watchCycle_def opps housekeeping_def)
  have d: "distinct thousand_keys"
    by (auto simp add: thousand_keys_def distinct_map simp del: upt_rec_numeral
          intro!: inj_onI dest: arg_cong [where f = length])
  have l: "length thousand_keys = 1000"
    by (simp add: thousand_keys_def del: upt_rec_numeral)
  have n: "''basic:Q'' \<notin> set thousand_keys"
    by (auto simp add: thousand_keys_def Cons_replicate_eq simp del: upt_rec_numeral)
  have c3: "watchCycle const_num_str thousand_keys (Some [?m]) = (None, [?w], [])"
    using n l by (simp add: watchCycle_def opps housekeeping_def)
  have "distinct ([] :: string list)" by simp
  note first = tracker_forwards_once [OF this opps opps c1 c2]
  note cleared = tracker_forwards_once [OF d opps opps c3 c1]
  have never_again: "\<forall>k\<in>set [''basic:Q'']. k \<notin> wid ` set ([] :: wopp list)"
    using first by (elim conjE)
  have again: "\<forall>k\<in>set ([] :: string list). k \<notin> wid ` set [?w]"
    using cleared by (elim conjE)
  show ?thesis
    using never_again again c1 c2 c3 d l by simp
qed

section \<open>The canonical key\<close>

text \<open>
  The date pattern looks ahead only as far as the first character that cannot continue
  a match. Hence a match that starts inside a text \<open>X\<close> followed by \<open>" b..."\<close> ends inside
  \<open>X\<close> and does not depend on what comes after \<open>" b"\<close>.
\<close>

lemma lower_space: "lower (CHR '' '') = CHR '' ''"
  by (simp add: lower_def)

lemma ci_prefix_before_space:
  "CHR '' '' \<notin> set w \<Longrightarrow>
   ci_prefix w (X @ CHR '' '' # t) = (length w \<le> length X \<and> ci_prefix w X)"
proof (induction w arbitrary: X)
  case Nil
  then show ?case by simp
next
  case (Cons p w)
  then show ?case
    by (cases X) (auto simp: lower_space)
qed

lemma wb_end_local:
  "wb_end (Y @ CHR '' '' # t) = wb_end (Y @ CHR '' '' # t') \<and>
   (\<forall>n. wb_end (Y @ CHR '' '' # t) = Some n \<longrightarrow> n \<le> length Y)"
  by (cases Y) (auto simp: wb_end_def)

lemma alt_local:
  assumes ws: "\<forall>w\<in>set ws. CHR '' '' \<notin> set w"
    and k: "\<And>Y. k (Y @ CHR '' '' # t) = k (Y @ CHR '' '' # t') \<and>
              (\<forall>n. k (Y @ CHR '' '' # t) = Some n \<longrightarrow> n \<le> length Y)"
  shows "alt ws k (X @ CHR '' '' # t) = alt ws k (X @ CHR '' '' # t') \<and>
         (\<forall>n. alt ws k (X @ CHR '' '' # t) = Some n \<longrightarrow> n \<le> length X)"
  using ws
proof (induction ws)
  case Nil
  then show ?case by simp
next
  case (Cons w ws)
  then have w: "CHR '' '' \<notin> set w" and IH: "alt ws k (X @ CHR '' '' # t) = alt ws k (X @ CHR '' '' # t') \<and>
         (\<forall>n. alt ws k (X @ CHR '' '' # t) = Some n \<longrightarrow> n \<le> length X)"
    by auto
  show ?case
  proof (cases "length w \<le> length X \<and> ci_prefix w X")
    case True
    then have d: "drop (length w) (X @ CHR '' '' # u) = drop (length w) X @ CHR '' '' # u" for u
      by simp
    have l: "length w + length (drop (length w) X) = length X"
      using True by simp
    show ?thesis
      using True IH k [of "drop (length w) X"] l
      by (auto simp add: ci_prefix_before_space [OF w] d split: option.splits)
  next
    case False
    then show ?thesis
      using IH by (auto simp add: ci_prefix_before_space [OF w])
  qed
qed

lemma not_digit_space: "\<not> is_digit (CHR '' '')"
  by (simp add: is_digit_def)

lemma not_word_space: "\<not> is_word (CHR '' '')"
  by (simp add: is_word_def)

lemma digits12_local:
  "digits12 (Y @ CHR '' '' # t) = digits12 (Y @ CHR '' '' # t') \<and>
   (\<forall>n. digits12 (Y @ CHR '' '' # t) = Some n \<longrightarrow> n \<le> length Y)"
proof (cases Y)
  case Nil
  then show ?thesis
    by (cases t; cases t') (simp_all add: not_digit_space)
next
  case (Cons a Y1)
  show ?thesis
  proof (cases Y1)
    case Nil
    with Cons show ?thesis
      by (simp add: not_digit_space wb_end_def not_word_space)
  next
    case (Cons b Y2)
    with \<open>Y = a # Y1\<close> show ?thesis
      by (cases Y2) (simp_all add: wb_end_def not_word_space)
  qed
qed

lemma digits4_local:
  "digits4 (Y @ CHR '' '' # t) = digits4 (Y @ CHR '' '' # t') \<and>
   (\<forall>n. digits4 (Y @ CHR '' '' # t) = Some n \<longrightarrow> n \<le> length Y)"
proof -
  consider "Y = []" | a where "Y = [a]" | a b where "Y = [a, b]" | a b c where "Y = [a, b, c]"
    | a b c d Z where "Y = a # b # c # d # Z"
    by (metis list.exhaust)
  then show ?thesis
  proof cases
    case 1
    then show ?thesis
      by (cases t rule: digits4.cases; cases t' rule: digits4.cases) (simp_all add: not_digit_space)
  next
    case 2
    then show ?thesis
      by (cases t rule: digits4.cases; cases t' rule: digits4.cases) (simp_all add: not_digit_space)
  next
    case 3
    then show ?thesis
      by (cases t rule: digits4.cases; cases t' rule: digits4.cases) (simp_all add: not_digit_space)
  next
    case 4
    then show ?thesis by (simp add: not_digit_space)
  next
    case 5
    then show ?thesis
      by (cases Z) (simp_all add: wb_end_def not_word_space)
  qed
qed

lemma months_no_space: "\<forall>w\<in>set months. CHR '' '' \<notin> set w"
  by (simp add: months_def)

lemma date_token_local:
  "date_token (Y @ CHR '' '' # t) = date_token (Y @ CHR '' '' # t') \<and>
   (\<forall>n. date_token (Y @ CHR '' '' # t) = Some n \<longrightarrow> n \<le> length Y)"
  using alt_local [OF months_no_space, of wb_end t t' Y, OF wb_end_local]
    digits12_local [of Y t t'] digits4_local [of Y t t']
  by (auto simp add: date_token_def split: option.splits)


lemma digits12_no_digit: "\<not> is_digit a \<Longrightarrow> digits12 (a # r) = None"
  by (cases r) auto

lemma digits4_no_digit: "\<not> is_digit a \<Longrightarrow> digits4 (a # r) = None"
  by (cases "a # r" rule: digits4.cases) auto

lemma date_token_b: "date_token (CHR ''b'' # r) = None"
  by (simp add: date_token_def months_def lower_def digits12_no_digit digits4_no_digit is_digit_def)


lemma takeWhile_space_append: "\<not> (\<forall>y\<in>set Y. is_space y) \<Longrightarrow> takeWhile is_space (Y @ u) = takeWhile is_space Y"
  by (auto simp add: takeWhile_append)

lemma drop_space_append: "\<not> (\<forall>y\<in>set Y. is_space y) \<Longrightarrow> drop (length (takeWhile is_space Y)) (Y @ u) = dropWhile is_space Y @ u"
  by (simp add: dropWhile_eq_drop length_takeWhile_le)


lemma length_space_split: "length (takeWhile is_space Y) + length (dropWhile is_space Y) = length (Y::string)"
  by (metis length_append takeWhile_dropWhile_id)

lemma spaces_then_append:
  assumes "\<not> (\<forall>y\<in>set Y. is_space y)"
  shows "spaces_then date_token (Y @ u) =
      (if takeWhile is_space Y = [] then None
       else case date_token (dropWhile is_space Y @ u) of
              Some j \<Rightarrow> Some (length (takeWhile is_space Y) + j) | None \<Rightarrow> None)"
  by (simp add: spaces_then_def Let_def takeWhile_space_append [OF assms] drop_space_append [OF assms] del: drop_append)


lemma spaces_then_local:
  "spaces_then date_token (Y @ CHR '' '' # CHR ''b'' # r) = spaces_then date_token (Y @ CHR '' '' # CHR ''b'' # r') \<and>
   (\<forall>n. spaces_then date_token (Y @ CHR '' '' # CHR ''b'' # r) = Some n \<longrightarrow> n \<le> length Y)"
proof (cases "\<forall>y\<in>set Y. is_space y")
  case True
  have sp: "is_space (CHR '' '')" "\<not> is_space (CHR ''b'')"
    by (simp_all add: is_space_def)
  have "takeWhile is_space (Y @ CHR '' '' # CHR ''b'' # u) = Y @ [CHR '' '']" for u
    using True sp by simp
  then show ?thesis
    by (simp add: spaces_then_def date_token_b)
next
  case False
  note eq = spaces_then_append [OF False]
  note loc = date_token_local [of "dropWhile is_space Y" "CHR ''b'' # r" "CHR ''b'' # r'"]
  note len = length_space_split [of Y]
  have e1: "spaces_then date_token (Y @ CHR '' '' # CHR ''b'' # r) = spaces_then date_token (Y @ CHR '' '' # CHR ''b'' # r')"
    using loc by (simp add: eq)
  have e2: "n \<le> length Y" if "spaces_then date_token (Y @ CHR '' '' # CHR ''b'' # r) = Some n" for n
  proof -
    from that obtain j where "date_token (dropWhile is_space Y @ CHR '' '' # CHR ''b'' # r) = Some j"
      "n = length (takeWhile is_space Y) + j"
      by (auto simp add: eq split: if_splits option.splits)
    with loc len show ?thesis by auto
  qed
  show ?thesis
    using e1 e2 by blast
qed


lemma keywords_no_space: "\<forall>w\<in>set [''by'', ''before'', ''after'', ''in'', ''on'']. CHR '' '' \<notin> set w"
  by simp

lemma wb_local: "wb prev (X @ CHR '' '' # t) = wb prev (X @ CHR '' '' # t')"
  by (cases X) (simp_all add: wb_def)

lemma match_date_local:
  "match_date prev (X @ CHR '' '' # CHR ''b'' # r) = match_date prev (X @ CHR '' '' # CHR ''b'' # r') \<and>
   (\<forall>n. match_date prev (X @ CHR '' '' # CHR ''b'' # r) = Some n \<longrightarrow> n \<le> length X)"
  using alt_local [OF keywords_no_space, of "spaces_then date_token" "CHR ''b'' # r" "CHR ''b'' # r'" X,
      OF spaces_then_local]
    wb_local [of prev X "CHR ''b'' # r" "CHR ''b'' # r'"]
  by (simp add: match_date_def del: alt.simps)


lemma replace_all_date_local:
  assumes tails: "\<And>p. replace_all match_date [] p (CHR '' '' # CHR ''b'' # r)
                      = replace_all match_date [] p (CHR '' '' # CHR ''b'' # r')"
  shows "replace_all match_date [] prev (X @ CHR '' '' # CHR ''b'' # r)
       = replace_all match_date [] prev (X @ CHR '' '' # CHR ''b'' # r')"
proof (induction X arbitrary: prev rule: length_induct)
  case (1 X)
  show ?case
  proof (cases X)
    case Nil
    then show ?thesis using tails by simp
  next
    case (Cons c cs)
    note loc = match_date_local [of prev X r r']
    show ?thesis
    proof (cases "match_date prev (X @ CHR '' '' # CHR ''b'' # r)")
      case None
      with loc have "match_date prev (X @ CHR '' '' # CHR ''b'' # r') = None" by simp
      with None Cons 1 show ?thesis by simp
    next
      case (Some n)
      with loc have n': "match_date prev (X @ CHR '' '' # CHR ''b'' # r') = Some n" and le: "n \<le> length X"
        by auto
      show ?thesis
      proof (cases n)
        case 0
        with Some n' Cons 1 show ?thesis by simp
      next
        case (Suc j)
        with le Cons have j: "j \<le> length cs" by simp
        then have dr: "drop j (cs @ u) = drop j cs @ u" for u by simp
        have tk: "take (Suc j) (c # cs @ u) = take (Suc j) (c # cs)" for u
          using j by simp
        have "length (drop j cs) < length X"
          using Cons by simp
        with 1 have IH: "replace_all match_date [] q (drop j cs @ CHR '' '' # CHR ''b'' # r)
             = replace_all match_date [] q (drop j cs @ CHR '' '' # CHR ''b'' # r')" for q
          by blast
        show ?thesis
          using Some n' Suc Cons IH by (simp add: dr tk del: take_Suc_Cons drop_append)
      qed
    qed
  qed
qed


lemma match_date_space: "match_date p (CHR '' '' # s) = None"
  by (simp add: match_date_def lower_def)

lemma date_tail_eval:
  "replace_all match_date [] (Some (CHR '' '')) ''by March 2026'' = '' 2026''"
  "replace_all match_date [] (Some (CHR '' '')) ''by April 2026'' = '' 2026''"
  "replace_all match_date [] (Some (CHR '' '')) ''by June 2026'' = '' 2026''"
  by (simp_all add: match_date_def spaces_then_def date_token_def months_def wb_end_def wb_def
        lower_def is_word_def is_digit_def is_space_def)

lemma date_tail:
  "replace_all match_date [] p '' by March 2026'' = ''  2026''"
  "replace_all match_date [] p '' by April 2026'' = ''  2026''"
  "replace_all match_date [] p '' by June 2026'' = ''  2026''"
  by (simp_all add: match_date_space date_tail_eval del: replace_all.simps add: replace_all.simps(2) [of _ _ _ "CHR '' ''"])

lemma by_date_same:
  "replace_all match_date [] None (X @ '' by March 2026'') = replace_all match_date [] None (X @ '' by April 2026'')"
  "replace_all match_date [] None (X @ '' by March 2026'') = replace_all match_date [] None (X @ '' by June 2026'')"
  using replace_all_date_local [of "''y March 2026''" "''y April 2026''" None X]
    replace_all_date_local [of "''y March 2026''" "''y June 2026''" None X]
  by (simp_all add: date_tail del: replace_all.simps)

text \<open>
  C6. For every common prefix \<open>X\<close>, the three question texts \<open>X by March 2026\<close>,
  \<open>X by April 2026\<close> and \<open>X by June 2026\<close> get one and the same key from
  extractBaseEvent, which removes the date qualifiers, then the ordinal day tokens, then
  the stand-alone yes/no tokens, collapses white space, trims and keeps at most 50
  characters.
\<close>

theorem canonical_key_date_variants:
  "extractBaseEvent (X @ '' by March 2026'') = extractBaseEvent (X @ '' by April 2026'') \<and>
   extractBaseEvent (X @ '' by April 2026'') = extractBaseEvent (X @ '' by June 2026'') \<and>
   length (extractBaseEvent (X @ '' by March 2026'')) \<le> 50"
  using by_date_same [of X] by (simp add: extractBaseEvent_def)

text \<open>For \<open>X = US strikes Iran\<close> the common key is \<open>US strikes Iran 2026\<close>.\<close>

theorem canonical_key_date_variants_witness:
  "extractBaseEvent ''US strikes Iran by March 2026'' = ''US strikes Iran 2026'' \<and>
   extractBaseEvent ''US strikes Iran by April 2026'' = ''US strikes Iran 2026'' \<and>
   extractBaseEvent ''US strikes Iran by June 2026'' = ''US strikes Iran 2026''"
proof -
  have "extractBaseEvent ''US strikes Iran by March 2026'' = ''US strikes Iran 2026''"
    by (simp add: rx_defs)
  then show ?thesis
    using canonical_key_date_variants [of "''US strikes Iran''"] by simp
qed

section \<open>Grouping by canonical key\<close>

lemma first_seen_snoc:
  "first_seen (xs @ [x]) = (if x \<in> set xs then first_seen xs else first_seen xs @ [x])"
  by (simp add: first_seen_def)

lemma set_first_seen: "set (first_seen xs) = set xs"
  by (simp add: first_seen_def)

lemma distinct_first_seen: "distinct (first_seen xs)"
  by (simp add: first_seen_def)

lemma push_map:
  "push (map (\<lambda>k. (k, f k)) L) k0 m =
     (if k0 \<in> set L then map (\<lambda>k. (k, if k = k0 then f k @ [m] else f k)) L
      else map (\<lambda>k. (k, f k)) L @ [(k0, [m])])"
  if "distinct L"
  using that by (induction L) auto

lemma push_buckets: "push (buckets xs) (canonical_key m) m = buckets (xs @ [m])"
proof (cases "canonical_key m \<in> set (map canonical_key xs)")
  case True
  then show ?thesis
    by (simp add: buckets_def push_map distinct_first_seen set_first_seen first_seen_snoc)
next
  case False
  then have "\<forall>x\<in>set xs. canonical_key x \<noteq> canonical_key m"
    by (metis imageI set_map)
  then have "filter (\<lambda>x. canonical_key x = canonical_key m) xs = []"
    by (simp add: filter_empty_conv)
  with False show ?thesis
    by (auto simp add: buckets_def push_map distinct_first_seen set_first_seen first_seen_snoc)
qed

lemma question_text_key: "question_text m = Inr q \<Longrightarrow> extractBaseEvent q = canonical_key m"
  by (auto simp: question_text_def canonical_key_def split: jsval.splits)

lemma bucket_buckets:
  "bucket (buckets xs) ms = Inr g \<Longrightarrow> g = buckets (xs @ ms)"
proof (induction ms arbitrary: xs)
  case Nil
  then show ?case by simp
next
  case (Cons m ms)
  then obtain q where q: "question_text m = Inr q"
    by (auto split: sum.splits)
  with Cons.prems have "bucket (buckets (xs @ [m])) ms = Inr g"
    by (auto simp add: Let_def question_text_key push_buckets split: if_splits)
  from Cons.IH [OF this] show ?case by simp
qed

lemma bucket_fails:
  "(\<exists>e. bucket g ms = Inl e) \<longleftrightarrow>
   (\<exists>m\<in>set ms. question_text m = Inl TypeError \<or> canonical_key m \<in> set object_prototype_keys)"
proof (induction ms arbitrary: g)
  case Nil
  then show ?case by simp
next
  case (Cons m ms)
  show ?case
  proof (cases "question_text m")
    case (Inl e)
    then have "e = TypeError"
      by (auto simp: question_text_def split: jsval.splits)
    with Inl show ?thesis by auto
  next
    case (Inr q)
    then show ?thesis
      using Cons.IH [of "push g (canonical_key m) m"]
      by (auto simp add: Let_def question_text_key)
  qed
qed


lemma entries_map:
  "entries (map (\<lambda>k. (k, f k)) L)
     = map (\<lambda>k. (k, f k)) (sort_key digits_val (filter is_array_index L) @ filter (\<lambda>k. \<not> is_array_index k) L)"
  by (simp add: entries_def filter_map comp_def sort_key_map)

lemma findRelatedMarkets_Inr:
  assumes "findRelatedMarkets ms = Inr gs"
  shows "gs = map (\<lambda>k. \<lparr>event = k, markets = filter (\<lambda>m. canonical_key m = k) ms\<rparr>)
                (sort_key digits_val (filter is_array_index
                     (filter (\<lambda>k. 2 \<le> length (filter (\<lambda>m. canonical_key m = k) ms)) (first_seen (map canonical_key ms))))
                 @ filter (\<lambda>k. \<not> is_array_index k)
                     (filter (\<lambda>k. 2 \<le> length (filter (\<lambda>m. canonical_key m = k) ms)) (first_seen (map canonical_key ms))))"
proof -
  have e: "buckets [] = []"
    by (simp add: buckets_def first_seen_def)
  obtain g where g: "bucket [] ms = Inr g"
    and gs: "gs = map (\<lambda>kv. \<lparr>event = fst kv, markets = snd kv\<rparr>) (filter (\<lambda>kv. 1 < length (snd kv)) (entries g))"
    using assms by (auto simp: findRelatedMarkets_def split: sum.splits)
  from g have "g = buckets ms"
    using bucket_buckets [of "[]" ms g] by (simp add: e)
  then have g': "g = map (\<lambda>k. (k, filter (\<lambda>m. canonical_key m = k) ms)) (first_seen (map canonical_key ms))"
    by (simp add: buckets_def)
  have two: "(Suc 0 < n) = (2 \<le> n)" for n :: nat by auto
  show ?thesis
    unfolding gs g' entries_map
    by (simp add: filter_map comp_def filter_sort two conj_commute)
qed

text \<open>
  C5 (amended). Whenever findRelatedMarkets returns, every group in its result has at
  least 2 members, and a group holds exactly the markets of its canonical key, in input
  order; no key occurs twice. The groups whose key is an array index (a canonical decimal
  numeral below \<open>2^32 - 1\<close>) come first, in ascending numeric order; the groups with other
  keys follow in first-seen order. The function throws a type error (and returns no
  groups) exactly when some market's question is a truthy value that is not a string or
  some market's key is the name of a property of \<open>Object.prototype\<close>.
\<close>

theorem findRelatedMarkets_groups:
  fixes ms :: "market list"
  defines "K \<equiv> filter (\<lambda>k. 2 \<le> length (filter (\<lambda>m. canonical_key m = k) ms)) (first_seen (map canonical_key ms))"
  shows "(\<forall>gs. findRelatedMarkets ms = Inr gs \<longrightarrow>
            (\<forall>g\<in>set gs. 2 \<le> length (markets g) \<and>
                        markets g = filter (\<lambda>m. canonical_key m = event g) ms) \<and>
            distinct (map event gs) \<and>
            map event gs = sort_key digits_val (filter is_array_index K) @ filter (\<lambda>k. \<not> is_array_index k) K) \<and>
         ((\<exists>e. findRelatedMarkets ms = Inl e) \<longleftrightarrow>
            (\<exists>m\<in>set ms. question_text m = Inl TypeError \<or> canonical_key m \<in> set object_prototype_keys))"
proof -
  have fails: "(\<exists>e. findRelatedMarkets ms = Inl e) \<longleftrightarrow>
            (\<exists>m\<in>set ms. question_text m = Inl TypeError \<or> canonical_key m \<in> set object_prototype_keys)"
    using bucket_fails [of "[]" ms]
    by (auto simp add: findRelatedMarkets_def split: sum.splits)
  have ok: "(\<forall>g\<in>set gs. 2 \<le> length (markets g) \<and>
                        markets g = filter (\<lambda>m. canonical_key m = event g) ms) \<and>
            distinct (map event gs) \<and>
            map event gs = sort_key digits_val (filter is_array_index K) @ filter (\<lambda>k. \<not> is_array_index k) K"
    if r: "findRelatedMarkets ms = Inr gs" for gs
  proof -
    let ?E = "sort_key digits_val (filter is_array_index K) @ filter (\<lambda>k. \<not> is_array_index k) K"
    have gs: "gs = map (\<lambda>k. \<lparr>event = k, markets = filter (\<lambda>m. canonical_key m = k) ms\<rparr>) ?E"
      using findRelatedMarkets_Inr [OF r] by (simp add: K_def)
    have ev: "map event gs = ?E"
      by (simp add: gs comp_def)
    have dK: "distinct K"
      by (simp add: K_def distinct_first_seen)
    have dE: "distinct ?E"
      using dK by auto
    have inK: "set ?E \<subseteq> set K"
      by auto
    have each: "2 \<le> length (markets g) \<and> markets g = filter (\<lambda>m. canonical_key m = event g) ms"
      if "g \<in> set gs" for g
    proof -
      from that obtain k where k: "k \<in> set ?E" "g = \<lparr>event = k, markets = filter (\<lambda>m. canonical_key m = k) ms\<rparr>"
        unfolding gs by auto
      with inK have "k \<in> set K" by blast
      then have "2 \<le> length (filter (\<lambda>m. canonical_key m = k) ms)"
        by (simp add: K_def)
      with k show ?thesis by simp
    qed
    have all: "\<forall>g\<in>set gs. 2 \<le> length (markets g) \<and>
                        markets g = filter (\<lambda>m. canonical_key m = event g) ms"
      using each by blast
    show ?thesis
      by (intro conjI) (rule all dE [folded ev] ev)+
  qed
  show ?thesis
    using ok fails by blast
qed
text \<open>Three markets, two of them date variants of one question: one group of two. A
  market whose question is \<open>toString\<close> makes the call fail.\<close>

theorem findRelatedMarkets_groups_witness:
  "map_sum (\<lambda>e. e) (map (\<lambda>g. (event g, map question (markets g))))
     (findRelatedMarkets [question_market ''A by March 2026'', question_market ''B'',
                          question_market ''A by June 2026''])
     = Inr [(''A 2026'', [JStr ''A by March 2026'', JStr ''A by June 2026''])] \<and>
   findRelatedMarkets [question_market ''A'', question_market ''toString''] = Inl TypeError"
  using findRelatedMarkets_groups [of "[question_market ''A by March 2026'', question_market ''B'',
                          question_market ''A by June 2026'']"]
        findRelatedMarkets_groups [of "[question_market ''A'', question_market ''toString'']"]
  by (simp add: question_market_def mock_market_def group_defs rx_defs parse_defs Let_def)

text \<open>
  C5 as stated fails. Of the questions \<open>Bitcoin?\<close>, \<open>2026\<close>, \<open>Bitcoin?\<close>, \<open>2026\<close> the key
  \<open>Bitcoin?\<close> is seen first, but the key \<open>2026\<close> is an array index, and its group comes
  first in the result.
\<close>

theorem findRelatedMarkets_order_counterexample:
  "map_sum (\<lambda>e. e) (map event)
     (findRelatedMarkets [question_market ''Bitcoin?'', question_market ''2026'',
                          question_market ''Bitcoin?'', question_market ''2026''])
     = Inr [''2026'', ''Bitcoin?''] \<and>
   first_seen (map canonical_key [question_market ''Bitcoin?'', question_market ''2026'',
                                  question_market ''Bitcoin?'', question_market ''2026''])
     = [''Bitcoin?'', ''2026'']"
  by (simp add: question_market_def mock_market_def canonical_key_def first_seen_def
        group_defs rx_defs parse_defs Let_def)

section \<open>Text-encoded prices in the basic rule\<close>

text \<open>
  The mutually exclusive rule decodes a price field that arrives as text; the basic rule
  does not. It indexes the text, so its yes price is \<open>parseFloat\<close> of the first
  character. For the text \<open>[0.15, 0.82]\<close> that is NaN: the detector returns an opportunity
  whose edge is NaN, and the scan, which keeps an opportunity only when
  \<open>edge >= MIN_EDGE\<close>, drops it.
\<close>

theorem basic_rule_indexes_text_prices:
  "map_option (\<lambda>a. (prices a, edge a))
     (detectBasicArb (price_market (JStr ''[0.15, 0.82]'') JUndefined JUndefined))
     = Some ([NaN, Fin 0], NaN) \<and>
   scan_opportunities no_decoder [price_market (JStr ''[0.15, 0.82]'') JUndefined JUndefined] = Inr []"
  by (simp add: scan_opportunities_def admit_def scanner_MIN_EDGE_def multiOutcome_def
        sort_opps_def basic_defs group_defs rx_defs parse_defs)

end
